theory Spec2Isabelle
  imports Main "HOL-Library.AList"
begin

section \<open>Strings\<close>

text \<open>
  Go strings are byte sequences, as \<^typ>\<open>string\<close> is here: \<open>len\<close> is \<^const>\<open>length\<close>.
  The functions below are the ones of Go's \<open>strings\<close> package that \<open>main.go\<close> calls, but
  for \<open>strings.ToLower\<close>: its Unicode case mapping is not modelled, and every function
  that lowers a string takes it as the parameter \<open>lw\<close>.
\<close>

definition hasPrefix :: "string \<Rightarrow> string \<Rightarrow> bool" where
  \<comment> \<open>\<open>strings.HasPrefix(s, prefix)\<close>\<close>
  "hasPrefix s p = (take (length p) s = p)"

fun contains :: "string \<Rightarrow> string \<Rightarrow> bool" where
  \<comment> \<open>\<open>strings.Contains(s, substr)\<close>: \<open>substr\<close> starts at some position of \<open>s\<close>\<close>
  "contains [] sub = (sub = [])"
| "contains (c # cs) sub = (hasPrefix (c # cs) sub \<or> contains cs sub)"

definition replaceSpaces :: "string \<Rightarrow> string" where
  \<comment> \<open>\<open>strings.ReplaceAll(s, " ", "_")\<close>\<close>
  "replaceSpaces s = map (\<lambda>c. if c = CHR '' '' then CHR ''_'' else c) s"

fun split :: "string \<Rightarrow> string list" where
  \<comment> \<open>\<open>strings.Split(s, " ")\<close>: one part more than there are spaces; \<open>""\<close> gives \<open>[""]\<close>\<close>
  "split [] = [[]]"
| "split (c # cs) =
     (if c = CHR '' '' then [] # split cs
      else (case split cs of p # ps \<Rightarrow> (c # p) # ps | [] \<Rightarrow> [[c]]))"

definition normalizeAreaID :: "(string \<Rightarrow> string) \<Rightarrow> string \<Rightarrow> string" where
  \<comment> \<open>\<open>strings.ReplaceAll(strings.ToLower(s), " ", "_")\<close>, written inline in the source\<close>
  "normalizeAreaID lw s = replaceSpaces (lw s)"

section \<open>Helper functions for area detection\<close>

definition commonAreaWords :: "string list" where
  "commonAreaWords =
     [''room'', ''bedroom'', ''bathroom'', ''kitchen'', ''office'',
      ''living'', ''dining'', ''family'', ''master'', ''guest'',
      ''hall'', ''hallway'', ''entrance'', ''foyer'', ''lobby'',
      ''garage'', ''basement'', ''attic'', ''closet'', ''storage'',
      ''porch'', ''patio'', ''deck'', ''balcony'', ''terrace'']"

definition isCommonAreaWord :: "(string \<Rightarrow> string) \<Rightarrow> string \<Rightarrow> bool" where
  "isCommonAreaWord lw w = (lw w \<in> set commonAreaWords)"

definition deviceNames :: "string list" where
  "deviceNames =
     [''lolin'', ''nodemcu'', ''esp'', ''arduino'', ''sonoff'',
      ''shelly'', ''zigbee'', ''zwave'', ''wifi'', ''bluetooth'',
      ''sensor'', ''switch'', ''light'', ''lamp'', ''bulb'',
      ''device'', ''module'', ''controller'', ''hub'']"

definition isDeviceName :: "(string \<Rightarrow> string) \<Rightarrow> string \<Rightarrow> bool" where
  "isDeviceName lw n = (\<exists>d \<in> set deviceNames. contains (lw n) d)"

section \<open>Home Assistant structures\<close>

text \<open>A decoded JSON value (Go's \<open>interface{}\<close> after \<open>json.Unmarshal\<close>); an object is
  the association list of its decoded map, with one pair for each key. The source looks
  only at whether a value is a string, an array or an object; numbers are kept as
  integers.\<close>

datatype jvalue =
    JNull
  | JBool bool
  | JNumber int
  | JString string
  | JArray "jvalue list"
  | JObject "(string \<times> jvalue) list"

record HAArea =
  AreaID :: string
  Name :: string
  Picture :: string
  Aliases :: "string list"

record HADevice =
  device_ID :: string
  device_AreaID :: string
  device_Name :: string

record HAEntity =
  entity_EntityID :: string
  entity_DeviceID :: string
  entity_AreaID :: string

record HAState =
  EntityID :: string
  State :: string
  Attributes :: "(string \<times> jvalue) list"
  LastChanged :: string
  LastUpdated :: string
  Area :: "HAArea option"

record Config =
  HAToken :: string
  HAURL :: string
  EntityFilter :: "string list"
  EntityBlacklist :: "string list"

section \<open>The Go runtime\<close>

text \<open>
  Two behaviours of the Go library and runtime decide results of the source and are not
  fixed here; every function that depends on them takes them in a parameter \<open>rt\<close>.
  \<open>ToLower\<close> is \<open>strings.ToLower\<close>. \<open>rangeAreas\<close> is the order in which \<open>range\<close> visits the
  entries of the map \<open>areasMap\<close>: given how many events came before and the entries in
  insertion order, it lists them in the order visited.
\<close>

record runtime =
  ToLower :: "string \<Rightarrow> string"
  rangeAreas :: "nat \<Rightarrow> (string \<times> HAArea) list \<Rightarrow> (string \<times> HAArea) list"

section \<open>The hub and the trace of events\<close>

text \<open>
  Go's \<open>error\<close> values, by the place that creates them. \<open>TransportError\<close> is any error of
  \<open>http.NewRequest\<close> or \<open>httpClient.Do\<close>; \<open>SocketError\<close> is any failure of one websocket
  session (dial, authentication, a frame that cannot be read or parsed, \<open>success = false\<close>).
\<close>

datatype err =
    TransportError
  | SocketError
  | DecodeError
  | StatusError int
  | UnsupportedEntityType string
  | UnsupportedAction string

text \<open>
  A response body is given by what each of the four JSON decodings of the source returns on
  it (\<open>None\<close>: the body cannot be read or does not decode into that type).
\<close>

record body =
  asAreas :: "HAArea list option"
  asDevices :: "HADevice list option"
  asEntities :: "HAEntity list option"
  asStates :: "HAState list option"

text \<open>
  Every network operation is recorded in a trace. A websocket session (connect,
  authenticate, one request, one response, close) is one event, named by its request type;
  an HTTP call is one call of \<open>makeHARequest\<close>, named by method, endpoint and JSON body
  (base URL and bearer token are the configuration's and the same in every call; a request
  that cannot be built or sent is a call that fails). The trace also records the operations
  on the area cache, in the order the source performs them: \<open>Lock\<close>, \<open>Unlock\<close>, \<open>RLock\<close> and
  \<open>RUnlock\<close> of its mutex \<open>mu\<close>, and \<open>Assign f\<close> when the field \<open>f\<close> of the cache has been
  given its new value.
\<close>

datatype event =
    WSRequest string
  | HTTPRequest string string "jvalue option"
  | Lock
  | Unlock
  | RLock
  | RUnlock
  | Assign string

text \<open>The hub answers a request depending on the request and on how many events came
  before it, so the same request can be answered differently later.\<close>

record hub =
  socket :: "string \<Rightarrow> nat \<Rightarrow> err + body"
  http :: "string \<Rightarrow> string \<Rightarrow> jvalue option \<Rightarrow> nat \<Rightarrow> err + int \<times> body"

type_synonym trace = "event list"

definition socketRequest :: "hub \<Rightarrow> string \<Rightarrow> trace \<Rightarrow> (err + body) \<times> trace" where
  "socketRequest h ty tr = (socket h ty (length tr), tr @ [WSRequest ty])"

definition makeHARequest ::
  "hub \<Rightarrow> string \<Rightarrow> string \<Rightarrow> jvalue option \<Rightarrow> trace \<Rightarrow> (err + int \<times> body) \<times> trace" where
  "makeHARequest h method endpoint b tr =
     (http h method endpoint b (length tr), tr @ [HTTPRequest method endpoint b])"

definition getAreasViaWebSocket :: "hub \<Rightarrow> trace \<Rightarrow> (err + HAArea list) \<times> trace" where
  "getAreasViaWebSocket h tr =
     (case socketRequest h ''config/area_registry/list'' tr of
        (Inl e, tr') \<Rightarrow> (Inl e, tr')
      | (Inr b, tr') \<Rightarrow>
          (case asAreas b of None \<Rightarrow> (Inl DecodeError, tr') | Some xs \<Rightarrow> (Inr xs, tr')))"

definition getDevicesViaWebSocket :: "hub \<Rightarrow> trace \<Rightarrow> (err + HADevice list) \<times> trace" where
  "getDevicesViaWebSocket h tr =
     (case socketRequest h ''config/device_registry/list'' tr of
        (Inl e, tr') \<Rightarrow> (Inl e, tr')
      | (Inr b, tr') \<Rightarrow>
          (case asDevices b of None \<Rightarrow> (Inl DecodeError, tr') | Some xs \<Rightarrow> (Inr xs, tr')))"

definition getEntityRegistryViaWebSocket :: "hub \<Rightarrow> trace \<Rightarrow> (err + HAEntity list) \<times> trace" where
  "getEntityRegistryViaWebSocket h tr =
     (case socketRequest h ''config/entity_registry/list'' tr of
        (Inl e, tr') \<Rightarrow> (Inl e, tr')
      | (Inr b, tr') \<Rightarrow>
          (case asEntities b of None \<Rightarrow> (Inl DecodeError, tr') | Some xs \<Rightarrow> (Inr xs, tr')))"

section \<open>Entity filter\<close>

text \<open>\<open>regexp.MatchString(pattern, s)\<close> is a parameter: \<open>None\<close> when the pattern does not
  compile, else whether the pattern matches somewhere in \<open>s\<close>.\<close>

type_synonym regexp = "string \<Rightarrow> string \<Rightarrow> bool option"

fun blacklistLoop :: "regexp \<Rightarrow> string \<Rightarrow> string list \<Rightarrow> bool" where
  "blacklistLoop rx entityID [] = False"
| "blacklistLoop rx entityID (pattern # ps) =
     (if pattern = entityID then True
      else (case rx pattern entityID of
              Some True \<Rightarrow> True
            | _ \<Rightarrow> blacklistLoop rx entityID ps))"

definition isEntityBlacklisted :: "regexp \<Rightarrow> Config \<Rightarrow> string \<Rightarrow> bool" where
  "isEntityBlacklisted rx cfg entityID = blacklistLoop rx entityID (EntityBlacklist cfg)"

fun whitelistLoop :: "regexp \<Rightarrow> string \<Rightarrow> string list \<Rightarrow> bool" where
  "whitelistLoop rx entityID [] = False"
| "whitelistLoop rx entityID (pattern # ps) =
     (case rx pattern entityID of
        Some True \<Rightarrow> True
      | _ \<Rightarrow> whitelistLoop rx entityID ps)"

definition isEntityWhitelisted :: "regexp \<Rightarrow> Config \<Rightarrow> string \<Rightarrow> bool" where
  "isEntityWhitelisted rx cfg entityID = whitelistLoop rx entityID (EntityFilter cfg)"

fun filterLoop :: "regexp \<Rightarrow> Config \<Rightarrow> HAState list \<Rightarrow> HAState list \<Rightarrow> HAState list" where
  "filterLoop rx cfg filtered [] = filtered"
| "filterLoop rx cfg filtered (entity # rest) =
     (if isEntityBlacklisted rx cfg (EntityID entity) then filterLoop rx cfg filtered rest
      else if length (EntityFilter cfg) = 0 then filterLoop rx cfg (filtered @ [entity]) rest
      else if isEntityWhitelisted rx cfg (EntityID entity)
        then filterLoop rx cfg (filtered @ [entity]) rest
      else filterLoop rx cfg filtered rest)"

definition filterEntities :: "regexp \<Rightarrow> Config \<Rightarrow> HAState list \<Rightarrow> HAState list" where
  "filterEntities rx cfg ents = filterLoop rx cfg [] ents"

section \<open>Area resolution pipeline\<close>

fun areasRestLoop :: "hub \<Rightarrow> string list \<Rightarrow> trace \<Rightarrow> HAArea list option \<times> trace" where
  \<comment> \<open>the \<open>for _, endpoint := range endpoints\<close> loop of \<open>getAreas\<close>; \<open>None\<close>: loop left
      without a \<open>return\<close>\<close>
  "areasRestLoop h [] tr = (None, tr)"
| "areasRestLoop h (endpoint # rest) tr =
     (case makeHARequest h ''GET'' endpoint None tr of
        (Inl e, tr') \<Rightarrow> areasRestLoop h rest tr'
      | (Inr (status, b), tr') \<Rightarrow>
          (if status = 200 then
             (case asAreas b of
                None \<Rightarrow> areasRestLoop h rest tr'
              | Some xs \<Rightarrow> (Some xs, tr'))
           else areasRestLoop h rest tr'))"

definition possibleArea :: "(string \<Rightarrow> string) \<Rightarrow> string \<Rightarrow> string option" where
  \<comment> \<open>the friendly-name block that both extraction functions contain; \<open>None\<close> when
      \<open>len(parts) < 2\<close>\<close>
  "possibleArea lw nameStr =
     (let parts = split nameStr in
      if length parts \<ge> 2 then
        (if length parts \<ge> 3 \<and> isCommonAreaWord lw (parts ! 1)
         then Some (parts ! 0 @ '' '' @ parts ! 1)
         else Some (parts ! 0))
      else None)"

definition addArea :: "string \<Rightarrow> string \<Rightarrow> (string \<times> HAArea) list \<Rightarrow> (string \<times> HAArea) list" where
  \<comment> \<open>\<open>if _, exists := areasMap[areaID]; !exists { areasMap[areaID] = &HAArea{...} }\<close>\<close>
  "addArea areaID name areasMap =
     (if map_of areasMap areaID = None
      then areasMap @ [(areaID, \<lparr>AreaID = areaID, Name = name, Picture = [], Aliases = []\<rparr>)]
      else areasMap)"

definition extractAreasStep ::
  "(string \<Rightarrow> string) \<Rightarrow> HAState \<Rightarrow> (string \<times> HAArea) list \<Rightarrow> (string \<times> HAArea) list" where
  \<comment> \<open>one iteration of the loop over the states in \<open>extractAreasFromStates\<close>\<close>
  "extractAreasStep lw state areasMap =
     (if \<not> hasPrefix (EntityID state) ''light.'' \<and> \<not> hasPrefix (EntityID state) ''switch.''
      then areasMap
      else
        (let m1 = (case map_of (Attributes state) ''area'' of
                     Some (JString areaStr) \<Rightarrow>
                       (if areaStr \<noteq> [] then addArea (normalizeAreaID lw areaStr) areaStr areasMap
                        else areasMap)
                   | _ \<Rightarrow> areasMap)
         in (case map_of (Attributes state) ''friendly_name'' of
               Some (JString nameStr) \<Rightarrow>
                 (case possibleArea lw nameStr of
                    Some p \<Rightarrow>
                      (if length p > 3 \<and> \<not> isDeviceName lw p
                       then addArea (normalizeAreaID lw p) p m1
                       else m1)
                  | None \<Rightarrow> m1)
             | _ \<Rightarrow> m1)))"

definition areasFromStates :: "runtime \<Rightarrow> nat \<Rightarrow> HAState list \<Rightarrow> HAArea list" where
  \<comment> \<open>The loop over the states fills \<open>areasMap\<close>; the source then converts it to a slice by
      ranging over the Go map, in the order \<open>rangeAreas\<close> gives (\<open>n\<close>: the events so far).\<close>
  "areasFromStates rt n states =
     map snd (rangeAreas rt n (fold (extractAreasStep (ToLower rt)) states []))"

definition extractAreasFromStates ::
  "runtime \<Rightarrow> hub \<Rightarrow> trace \<Rightarrow> (err + HAArea list) \<times> trace" where
  "extractAreasFromStates rt h tr =
     (case makeHARequest h ''GET'' ''/api/states'' None tr of
        (Inl e, tr') \<Rightarrow> (Inl e, tr')
      | (Inr (status, b), tr') \<Rightarrow>
          (if status \<noteq> 200 then (Inl (StatusError status), tr')
           else (case asStates b of
                   None \<Rightarrow> (Inl DecodeError, tr')
                 | Some states \<Rightarrow> (Inr (areasFromStates rt (length tr') states), tr'))))"

definition endpoints :: "string list" where
  \<comment> \<open>the REST candidates of \<open>getAreas\<close>, in order\<close>
  "endpoints = [''/api/config/area_registry'', ''/api/areas'']"

definition getAreas :: "runtime \<Rightarrow> hub \<Rightarrow> trace \<Rightarrow> (err + HAArea list) \<times> trace" where
  "getAreas rt h tr =
     (let (r, tr1) = getAreasViaWebSocket h tr in
      if (case r of Inr xs \<Rightarrow> length xs > 0 | Inl e \<Rightarrow> False) then (r, tr1)
      else
        (case areasRestLoop h endpoints tr1 of
           (Some xs, tr2) \<Rightarrow> (Inr xs, tr2)
         | (None, tr2) \<Rightarrow> extractAreasFromStates rt h tr2))"

definition getDevices :: "hub \<Rightarrow> trace \<Rightarrow> (err + HADevice list) \<times> trace" where
  "getDevices h tr =
     (let (r, tr1) = getDevicesViaWebSocket h tr in
      if (case r of Inr xs \<Rightarrow> length xs \<ge> 0 | Inl e \<Rightarrow> False) then (r, tr1)
      else
        (case makeHARequest h ''GET'' ''/api/config/device_registry'' None tr1 of
           (Inl e, tr2) \<Rightarrow> (Inl e, tr2)
         | (Inr (status, b), tr2) \<Rightarrow>
             (if status \<noteq> 200 then (Inr [], tr2)
              else (case asDevices b of
                      None \<Rightarrow> (Inl DecodeError, tr2)
                    | Some xs \<Rightarrow> (Inr xs, tr2)))))"

definition entityOfState :: "(string \<Rightarrow> string) \<Rightarrow> HAState \<Rightarrow> HAEntity" where
  \<comment> \<open>the body of the loop of \<open>extractEntityAreaFromStates\<close> for a light or switch\<close>
  "entityOfState lw state =
     (let entity = \<lparr>entity_EntityID = EntityID state, entity_DeviceID = [], entity_AreaID = []\<rparr>
      in (case map_of (Attributes state) ''friendly_name'' of
            Some (JString nameStr) \<Rightarrow>
              (case possibleArea lw nameStr of
                 Some p \<Rightarrow>
                   (if length p > 3 \<and> \<not> isDeviceName lw p
                    then entity\<lparr>entity_AreaID := normalizeAreaID lw p\<rparr>
                    else entity)
               | None \<Rightarrow> entity)
          | _ \<Rightarrow> entity))"

fun entitiesFromStates ::
  "(string \<Rightarrow> string) \<Rightarrow> HAEntity list \<Rightarrow> HAState list \<Rightarrow> HAEntity list" where
  "entitiesFromStates lw acc [] = acc"
| "entitiesFromStates lw acc (state # rest) =
     (if \<not> hasPrefix (EntityID state) ''light.'' \<and> \<not> hasPrefix (EntityID state) ''switch.''
      then entitiesFromStates lw acc rest
      else entitiesFromStates lw (acc @ [entityOfState lw state]) rest)"

definition extractEntityAreaFromStates ::
  "runtime \<Rightarrow> hub \<Rightarrow> trace \<Rightarrow> (err + HAEntity list) \<times> trace" where
  "extractEntityAreaFromStates rt h tr =
     (case makeHARequest h ''GET'' ''/api/states'' None tr of
        (Inl e, tr') \<Rightarrow> (Inl e, tr')
      | (Inr (status, b), tr') \<Rightarrow>
          (if status \<noteq> 200 then (Inl (StatusError status), tr')
           else (case asStates b of
                   None \<Rightarrow> (Inl DecodeError, tr')
                 | Some states \<Rightarrow> (Inr (entitiesFromStates (ToLower rt) [] states), tr'))))"

definition getEntityRegistry ::
  "runtime \<Rightarrow> hub \<Rightarrow> trace \<Rightarrow> (err + HAEntity list) \<times> trace" where
  "getEntityRegistry rt h tr =
     (let (r, tr1) = getEntityRegistryViaWebSocket h tr in
      if (case r of Inr xs \<Rightarrow> length xs \<ge> 0 | Inl e \<Rightarrow> False) then (r, tr1)
      else
        (case makeHARequest h ''GET'' ''/api/config/entity_registry'' None tr1 of
           (Inl e, tr2) \<Rightarrow> (Inl e, tr2)
         | (Inr (status, b), tr2) \<Rightarrow>
             (if status \<noteq> 200 then extractEntityAreaFromStates rt h tr2
              else (case asEntities b of
                      None \<Rightarrow> (Inl DecodeError, tr2)
                    | Some xs \<Rightarrow> (Inr xs, tr2)))))"

section \<open>Area cache\<close>

text \<open>
  Times are nanoseconds since Go's zero \<open>time.Time\<close>, which is the \<open>lastUpdate\<close> of the
  cache at process start. \<open>time.Since\<close> is a \<open>Duration\<close>, an \<open>int64\<close> of nanoseconds that
  saturates instead of overflowing.
\<close>

definition maxDuration :: int where
  "maxDuration = 2 ^ 63 - 1"

definition minDuration :: int where
  "minDuration = - (2 ^ 63)"

definition since :: "int \<Rightarrow> int \<Rightarrow> int" where
  \<comment> \<open>\<open>time.Since(t)\<close> when the clock reads \<open>now\<close>\<close>
  "since now t =
     (let d = now - t in
      if d > maxDuration then maxDuration else if d < minDuration then minDuration else d)"

definition staleness :: int where
  \<comment> \<open>\<open>5*time.Minute\<close>\<close>
  "staleness = 5 * 60 * 1000000000"

record AreaEnrichmentCache =
  areas :: "(string \<times> HAArea) list"
  devices :: "(string \<times> string) list"
  entities :: "(string \<times> string) list"
  lastUpdate :: int

definition areaCache :: AreaEnrichmentCache where
  \<comment> \<open>the process-wide cache at start\<close>
  "areaCache = \<lparr>areas = [], devices = [], entities = [], lastUpdate = 0\<rparr>"

definition buildAreas :: "HAArea list \<Rightarrow> (string \<times> HAArea) list" where
  "buildAreas xs = fold (\<lambda>a m. AList.update (AreaID a) a m) xs []"

definition addDevice :: "HADevice \<Rightarrow> (string \<times> string) list \<Rightarrow> (string \<times> string) list" where
  \<comment> \<open>the body of the loop over \<open>devices\<close>\<close>
  "addDevice device m =
     (if device_AreaID device \<noteq> [] then AList.update (device_ID device) (device_AreaID device) m
      else m)"

definition buildDevices :: "HADevice list \<Rightarrow> (string \<times> string) list" where
  "buildDevices ds = fold addDevice ds []"

definition addEntity ::
  "(string \<times> string) list \<Rightarrow> HAEntity \<Rightarrow> (string \<times> string) list \<Rightarrow> (string \<times> string) list" where
  \<comment> \<open>the body of the loop over \<open>entities\<close>; \<open>devs\<close> is \<open>areaCache.devices\<close>\<close>
  "addEntity devs entity m =
     (if entity_AreaID entity \<noteq> [] then
        AList.update (entity_EntityID entity) (entity_AreaID entity) m
      else if entity_DeviceID entity \<noteq> [] then
        (case map_of devs (entity_DeviceID entity) of
           Some deviceAreaID \<Rightarrow> AList.update (entity_EntityID entity) deviceAreaID m
         | None \<Rightarrow> m)
      else m)"

definition buildEntities :: "(string \<times> string) list \<Rightarrow> HAEntity list \<Rightarrow> (string \<times> string) list" where
  "buildEntities devs es = fold (addEntity devs) es []"

definition orEmpty :: "err + 'a list \<Rightarrow> 'a list" where
  \<comment> \<open>\<open>if err != nil { xs = []T{} }\<close>\<close>
  "orEmpty r = (case r of Inl e \<Rightarrow> [] | Inr xs \<Rightarrow> xs)"

text \<open>
  \<open>updateAreaCache\<close> locks the mutex at entry and unlocks it by \<open>defer\<close> at its return, so
  \<open>Lock\<close> is its first event and \<open>Unlock\<close> its last. The cache handed to the function is
  the cache at the moment \<open>Lock\<close> returns. \<open>now\<close> is the clock at the staleness check,
  \<open>done\<close> the clock at the final \<open>time.Now()\<close>.
\<close>

definition updateAreaCache ::
  "runtime \<Rightarrow> hub \<Rightarrow> int \<Rightarrow> int \<Rightarrow> AreaEnrichmentCache \<times> trace
     \<Rightarrow> err option \<times> AreaEnrichmentCache \<times> trace" where
  "updateAreaCache rt h now done = (\<lambda>(c, tr).
     (let tr0 = tr @ [Lock] in
      if since now (lastUpdate c) < staleness then (None, c, tr0 @ [Unlock])
      else
        (let (ra, tr1) = getAreas rt h tr0;
             c1 = c\<lparr>areas := buildAreas (orEmpty ra)\<rparr>;
             (rd, tr2) = getDevices h (tr1 @ [Assign ''areas'']);
             c2 = c1\<lparr>devices := buildDevices (orEmpty rd)\<rparr>;
             (re, tr3) = getEntityRegistry rt h (tr2 @ [Assign ''devices'']);
             c3 = c2\<lparr>entities := buildEntities (devices c2) (orEmpty re)\<rparr>
         in (None, c3\<lparr>lastUpdate := done\<rparr>,
             tr3 @ [Assign ''entities'', Assign ''lastUpdate'', Unlock]))))"

definition enrichState :: "AreaEnrichmentCache \<Rightarrow> HAState \<Rightarrow> HAState" where
  \<comment> \<open>the body of the enrichment loop, for \<open>states[i]\<close>\<close>
  "enrichState c state =
     (case map_of (entities c) (EntityID state) of
        Some areaID \<Rightarrow>
          (case map_of (areas c) areaID of
             Some area \<Rightarrow> state\<lparr>Area := Some area\<rparr>
           | None \<Rightarrow> state)
      | None \<Rightarrow> state)"

definition enrichWithArea ::
  "runtime \<Rightarrow> hub \<Rightarrow> int \<Rightarrow> int \<Rightarrow> HAState list \<Rightarrow> AreaEnrichmentCache \<times> trace
     \<Rightarrow> HAState list \<times> AreaEnrichmentCache \<times> trace" where
  \<comment> \<open>after the refresh, the read lock is held until the return (\<open>defer RUnlock\<close>)\<close>
  "enrichWithArea rt h now done states = (\<lambda>(c, tr).
     (let (e, c', tr') = updateAreaCache rt h now done (c, tr);
          tr'' = tr' @ [RLock]
      in if length (areas c') = 0 \<and> length (entities c') = 0 then (states, c', tr'' @ [RUnlock])
         else (map (enrichState c') states, c', tr'' @ [RUnlock])))"

section \<open>Control executor\<close>

definition controlEntity :: "hub \<Rightarrow> string \<Rightarrow> string \<Rightarrow> trace \<Rightarrow> err option \<times> trace" where
  "controlEntity h entityID action tr =
     (if \<not> hasPrefix entityID ''light.'' \<and> \<not> hasPrefix entityID ''switch.''
      then (Some (UnsupportedEntityType entityID), tr)
      else
        (let domain = (if hasPrefix entityID ''light.'' then ''light'' else ''switch'') in
         if action \<noteq> ''on'' \<and> action \<noteq> ''turn_on'' \<and> action \<noteq> ''off'' \<and> action \<noteq> ''turn_off''
         then (Some (UnsupportedAction action), tr)
         else
           (let service = (if action = ''on'' \<or> action = ''turn_on'' then ''turn_on'' else ''turn_off'');
                serviceCall = JObject [(''entity_id'', JString entityID)]
            in (case makeHARequest h ''POST'' (''/api/services/'' @ domain @ ''/'' @ service)
                       (Some serviceCall) tr of
                  (Inl e, tr') \<Rightarrow> (Some e, tr')
                | (Inr (status, b), tr') \<Rightarrow>
                    (if status \<noteq> 200 then (Some (StatusError status), tr')
                     else (None, tr'))))))"

section \<open>Batch control handler\<close>

text \<open>The messages of the handler, by their format string.\<close>

datatype message =
    MustBeObject nat
  | EntityIDRequired nat
  | ActionRequired string
  | EntityFailed string err
  | ErrorText err
  | EntitiesRequired
  | EntitiesMustBeArray

text \<open>One entry of \<open>results\<close>: the keys the source sets, \<open>None\<close> for a key it leaves out.\<close>

record batch_result =
  r_index :: nat
  r_entity_id :: "string option"
  r_action :: "string option"
  r_success :: bool
  r_error :: "message option"

record batch_response =
  results :: "batch_result list"
  errors :: "message list option"

datatype CallToolResult =
    ToolResultError message
  | ToolResultText nat nat nat batch_response

record batch_state =
  b_results :: "batch_result list"
  b_errors :: "message list"
  b_trace :: trace

definition batchItem :: "hub \<Rightarrow> nat \<Rightarrow> jvalue \<Rightarrow> batch_state \<Rightarrow> batch_state" where
  \<comment> \<open>one iteration of the loop over \<open>entitiesSlice\<close>, for item \<open>i\<close> (the pause between
      requests is not modelled)\<close>
  "batchItem h i entityInterface st =
     (case entityInterface of
        JObject entityMap \<Rightarrow>
          (case map_of entityMap ''entity_id'' of
             Some (JString entityID) \<Rightarrow>
               (case map_of entityMap ''action'' of
                  Some (JString action) \<Rightarrow>
                    (case controlEntity h entityID action (b_trace st) of
                       (Some e, tr') \<Rightarrow>
                         \<lparr>b_results = b_results st @
                            [\<lparr>r_index = i, r_entity_id = Some entityID, r_action = Some action,
                              r_success = False, r_error = Some (ErrorText e)\<rparr>],
                          b_errors = b_errors st @ [EntityFailed entityID e],
                          b_trace = tr'\<rparr>
                     | (None, tr') \<Rightarrow>
                         \<lparr>b_results = b_results st @
                            [\<lparr>r_index = i, r_entity_id = Some entityID, r_action = Some action,
                              r_success = True, r_error = None\<rparr>],
                          b_errors = b_errors st,
                          b_trace = tr'\<rparr>)
                | _ \<Rightarrow>
                    st\<lparr>b_results := b_results st @
                         [\<lparr>r_index = i, r_entity_id = Some entityID, r_action = None,
                           r_success = False, r_error = Some (ActionRequired entityID)\<rparr>],
                       b_errors := b_errors st @ [ActionRequired entityID]\<rparr>)
           | _ \<Rightarrow>
               st\<lparr>b_results := b_results st @
                    [\<lparr>r_index = i, r_entity_id = Some [], r_action = None,
                      r_success = False, r_error = Some (EntityIDRequired i)\<rparr>],
                  b_errors := b_errors st @ [EntityIDRequired i]\<rparr>)
      | _ \<Rightarrow>
          st\<lparr>b_results := b_results st @
               [\<lparr>r_index = i, r_entity_id = None, r_action = None,
                 r_success = False, r_error = Some (MustBeObject i)\<rparr>],
             b_errors := b_errors st @ [MustBeObject i]\<rparr>)"

fun batchLoop :: "hub \<Rightarrow> nat \<Rightarrow> jvalue list \<Rightarrow> batch_state \<Rightarrow> batch_state" where
  "batchLoop h i [] st = st"
| "batchLoop h i (entityInterface # rest) st = batchLoop h (Suc i) rest (batchItem h i entityInterface st)"

definition controlMultipleEntitiesHandler ::
  "hub \<Rightarrow> (string \<times> jvalue) list \<Rightarrow> trace \<Rightarrow> (CallToolResult \<times> err option) \<times> trace" where
  \<comment> \<open>the second component of the result is the handler's \<open>error\<close> return value\<close>
  "controlMultipleEntitiesHandler h arguments tr =
     (case map_of arguments ''entities'' of
        None \<Rightarrow> ((ToolResultError EntitiesRequired, None), tr)
      | Some (JArray entitiesSlice) \<Rightarrow>
          (let st = batchLoop h 0 entitiesSlice \<lparr>b_results = [], b_errors = [], b_trace = tr\<rparr>;
               successCount = length (filter r_success (b_results st));
               response = \<lparr>results = b_results st,
                           errors = (if length (b_errors st) > 0 then Some (b_errors st) else None)\<rparr>
           in ((ToolResultText (length entitiesSlice) successCount
                  (length entitiesSlice - successCount) response, None), b_trace st))
      | Some _ \<Rightarrow> ((ToolResultError EntitiesMustBeArray, None), tr))"

section \<open>Definitions used in the statements\<close>

text \<open>
  The area a registration resolves to, given the device map: the direct area id when it is
  non-empty, else the area of its device when the device id is non-empty and in the map.
\<close>

definition resolveArea :: "(string \<times> string) list \<Rightarrow> HAEntity \<Rightarrow> string option" where
  "resolveArea devs e =
     (if entity_AreaID e \<noteq> [] then Some (entity_AreaID e)
      else if entity_DeviceID e \<noteq> [] then map_of devs (entity_DeviceID e)
      else None)"

text \<open>The socket tier fails: the session ends in an error, or its result does not decode.\<close>

definition socketFails :: "hub \<Rightarrow> string \<Rightarrow> trace \<Rightarrow> (body \<Rightarrow> 'a option) \<Rightarrow> bool" where
  "socketFails h ty tr decode =
     (case socket h ty (length tr) of Inl e \<Rightarrow> True | Inr b \<Rightarrow> decode b = None)"

text \<open>
  The area names one state proposes, in the order the extraction looks at them: the
  non-empty string attribute \<open>area\<close>, then the candidate taken from \<open>friendly_name\<close>.
\<close>

definition explicitArea :: "HAState \<Rightarrow> string list" where
  "explicitArea s =
     (case map_of (Attributes s) ''area'' of
        Some (JString areaStr) \<Rightarrow> (if areaStr \<noteq> [] then [areaStr] else [])
      | _ \<Rightarrow> [])"

definition nameArea :: "(string \<Rightarrow> string) \<Rightarrow> HAState \<Rightarrow> string list" where
  "nameArea lw s =
     (case map_of (Attributes s) ''friendly_name'' of
        Some (JString nameStr) \<Rightarrow>
          (let parts = split nameStr;
               candidate = (if length parts \<ge> 3 \<and> isCommonAreaWord lw (parts ! 1)
                            then parts ! 0 @ '' '' @ parts ! 1 else parts ! 0)
           in if length parts \<ge> 2 \<and> length candidate > 3 \<and> \<not> isDeviceName lw candidate
              then [candidate] else [])
      | _ \<Rightarrow> [])"

definition areaCandidates :: "(string \<Rightarrow> string) \<Rightarrow> HAState \<Rightarrow> string list" where
  "areaCandidates lw s =
     (if hasPrefix (EntityID s) ''light.'' \<or> hasPrefix (EntityID s) ''switch.''
      then explicitArea s @ nameArea lw s else [])"

definition namedArea :: "(string \<Rightarrow> string) \<Rightarrow> string \<Rightarrow> HAArea" where
  "namedArea lw n = \<lparr>AreaID = normalizeAreaID lw n, Name = n, Picture = [], Aliases = []\<rparr>"

text \<open>
  What is assumed of the runtime where a statement needs it. On a string of ASCII bytes
  \<open>strings.ToLower\<close> maps \<open>A..Z\<close> to \<open>a..z\<close> and keeps every other byte. Ranging over a map
  visits every entry once.
\<close>

definition toLowerChar :: "char \<Rightarrow> char" where
  "toLowerChar c =
     (case map_of (zip ''ABCDEFGHIJKLMNOPQRSTUVWXYZ'' ''abcdefghijklmnopqrstuvwxyz'') c of
        Some l \<Rightarrow> l
      | None \<Rightarrow> c)"

definition asciiLower :: "string \<Rightarrow> string" where
  "asciiLower s = map toLowerChar s"

definition isASCII :: "string \<Rightarrow> bool" where
  "isASCII s = (\<forall>c \<in> set s. \<not> digit7 c)"

definition lowersASCII :: "(string \<Rightarrow> string) \<Rightarrow> bool" where
  "lowersASCII lw = (\<forall>s. isASCII s \<longrightarrow> lw s = asciiLower s)"

definition visitsAll :: "runtime \<Rightarrow> bool" where
  "visitsAll rt =
     (\<forall>n m. set (rangeAreas rt n m) = set m \<and> length (rangeAreas rt n m) = length m)"

text \<open>The events that are network operations.\<close>

fun isNetwork :: "event \<Rightarrow> bool" where
  "isNetwork (WSRequest ty) = True"
| "isNetwork (HTTPRequest method endpoint b) = True"
| "isNetwork e = False"

text \<open>The HTTP call that controlling an entity issues, if it issues one.\<close>

definition controlRequest :: "string \<Rightarrow> string \<Rightarrow> event option" where
  "controlRequest entityID action =
     (if (hasPrefix entityID ''light.'' \<or> hasPrefix entityID ''switch.'') \<and>
         action \<in> {''on'', ''turn_on'', ''off'', ''turn_off''}
      then Some (HTTPRequest ''POST''
             (''/api/services/'' @ (if hasPrefix entityID ''light.'' then ''light'' else ''switch'') @ ''/'' @
                (if action \<in> {''on'', ''turn_on''} then ''turn_on'' else ''turn_off''))
             (Some (JObject [(''entity_id'', JString entityID)])))
      else None)"

definition itemRequest :: "jvalue \<Rightarrow> event option" where
  "itemRequest item =
     (case item of
        JObject entityMap \<Rightarrow>
          (case (map_of entityMap ''entity_id'', map_of entityMap ''action'') of
             (Some (JString entityID), Some (JString action)) \<Rightarrow> controlRequest entityID action
           | _ \<Rightarrow> None)
      | _ \<Rightarrow> None)"

text \<open>
  The failure of item \<open>i\<close> of a batch, if it fails, as the message of the aggregate error
  list: the item is not an object; it lacks a string \<open>entity_id\<close> or a string \<open>action\<close>; or
  \<open>controlEntity\<close>, called when the trace is \<open>tr\<close>, returns an error (an unsupported entity
  type or action, or an error of the hub).
\<close>

definition itemFailure :: "hub \<Rightarrow> trace \<Rightarrow> nat \<Rightarrow> jvalue \<Rightarrow> message option" where
  "itemFailure h tr i item =
     (case item of
        JObject entityMap \<Rightarrow>
          (case map_of entityMap ''entity_id'' of
             Some (JString entityID) \<Rightarrow>
               (case map_of entityMap ''action'' of
                  Some (JString action) \<Rightarrow>
                    map_option (EntityFailed entityID) (fst (controlEntity h entityID action tr))
                | _ \<Rightarrow> Some (ActionRequired entityID))
           | _ \<Rightarrow> Some (EntityIDRequired i))
      | _ \<Rightarrow> Some (MustBeObject i))"

text \<open>The message that the aggregate error list holds for a failed entry of \<open>results\<close>.\<close>

definition aggregateMessage :: "batch_result \<Rightarrow> message option" where
  "aggregateMessage r =
     (case r_error r of
        None \<Rightarrow> None
      | Some (ErrorText e) \<Rightarrow>
          (case r_entity_id r of
             Some entityID \<Rightarrow> Some (EntityFailed entityID e)
           | None \<Rightarrow> None)
      | Some m \<Rightarrow> Some m)"

section \<open>Sample inputs\<close>

definition sampleRuntime :: runtime where
  \<comment> \<open>lowers ASCII letters; ranges over a map in insertion order\<close>
  "sampleRuntime = \<lparr>ToLower = asciiLower, rangeAreas = (\<lambda>n m. m)\<rparr>"

definition literalRegexp :: regexp where
  \<comment> \<open>a matcher for patterns without metacharacters: the pattern matches where it occurs
      as a substring; \<open>(\<close> does not compile\<close>
  "literalRegexp pattern s = (if pattern = ''('' then None else Some (contains s pattern))"

definition mkState :: "string \<Rightarrow> (string \<times> jvalue) list \<Rightarrow> HAState" where
  "mkState entityID attrs =
     \<lparr>EntityID = entityID, State = ''on'', Attributes = attrs,
      LastChanged = [], LastUpdated = [], Area = None\<rparr>"

definition kitchen :: HAArea where
  "kitchen = \<lparr>AreaID = ''kitchen'', Name = ''Kitchen'', Picture = [], Aliases = []\<rparr>"

definition noBody :: body where
  \<comment> \<open>a body that decodes into none of the four types, such as a JSON object\<close>
  "noBody = \<lparr>asAreas = None, asDevices = None, asEntities = None, asStates = None\<rparr>"

text \<open>In the sample hubs a body is given by the one decoding the code applies to it.\<close>

definition socketHub :: hub where
  \<comment> \<open>all three registries over the socket; every service call answers 200\<close>
  "socketHub =
     \<lparr>socket = (\<lambda>ty n.
         if ty = ''config/area_registry/list'' then Inr (noBody\<lparr>asAreas := Some [kitchen]\<rparr>)
         else if ty = ''config/device_registry/list'' then
           Inr (noBody\<lparr>asDevices :=
             Some [\<lparr>device_ID = ''dev1'', device_AreaID = ''kitchen'', device_Name = ''Plug''\<rparr>]\<rparr>)
         else if ty = ''config/entity_registry/list'' then
           Inr (noBody\<lparr>asEntities :=
             Some [\<lparr>entity_EntityID = ''light.a'', entity_DeviceID = ''dev1'', entity_AreaID = []\<rparr>]\<rparr>)
         else Inl SocketError),
       http = (\<lambda>method endpoint b n.
         if method = ''POST'' then Inr (200, noBody) else Inr (404, noBody))\<rparr>"

definition partialHub :: hub where
  \<comment> \<open>areas and registrations over the socket; the device registry unreachable\<close>
  "partialHub =
     \<lparr>socket = (\<lambda>ty n.
         if ty = ''config/area_registry/list'' then Inr (noBody\<lparr>asAreas := Some [kitchen]\<rparr>)
         else if ty = ''config/entity_registry/list'' then
           Inr (noBody\<lparr>asEntities :=
             Some [\<lparr>entity_EntityID = ''light.a'', entity_DeviceID = [], entity_AreaID = ''kitchen''\<rparr>]\<rparr>)
         else Inl SocketError),
       http = (\<lambda>method endpoint b n. Inl TransportError)\<rparr>"

definition areasDownHub :: hub where
  \<comment> \<open>devices and registrations over the socket; no areas from any tier\<close>
  "areasDownHub =
     \<lparr>socket = (\<lambda>ty n.
         if ty = ''config/device_registry/list'' then
           Inr (noBody\<lparr>asDevices :=
             Some [\<lparr>device_ID = ''dev1'', device_AreaID = ''kitchen'', device_Name = ''Plug''\<rparr>,
                   \<lparr>device_ID = ''dev2'', device_AreaID = [], device_Name = ''Bulb''\<rparr>]\<rparr>)
         else if ty = ''config/entity_registry/list'' then
           Inr (noBody\<lparr>asEntities :=
             Some [\<lparr>entity_EntityID = ''light.a'', entity_DeviceID = ''dev1'', entity_AreaID = []\<rparr>,
                   \<lparr>entity_EntityID = ''light.b'', entity_DeviceID = ''dev2'', entity_AreaID = []\<rparr>,
                   \<lparr>entity_EntityID = ''light.c'', entity_DeviceID = [], entity_AreaID = ''hall''\<rparr>]\<rparr>)
         else Inl SocketError),
       http = (\<lambda>method endpoint b n. Inl TransportError)\<rparr>"

definition atticCache :: AreaEnrichmentCache where
  \<comment> \<open>a cache filled by an earlier refresh that completed at 1000 s\<close>
  "atticCache =
     \<lparr>areas = [(''attic'', \<lparr>AreaID = ''attic'', Name = ''Attic'', Picture = [], Aliases = []\<rparr>)],
      devices = [(''dev9'', ''attic'')],
      entities = [(''light.z'', ''attic'')],
      lastUpdate = 1000000000000\<rparr>"

definition batchHub :: hub where
  \<comment> \<open>turning a light on answers 200, every other call 503\<close>
  "batchHub =
     \<lparr>socket = (\<lambda>ty n. Inl SocketError),
       http = (\<lambda>method endpoint b n.
         if method = ''POST'' \<and> endpoint = ''/api/services/light/turn_on'' then Inr (200, noBody)
         else Inr (503, noBody))\<rparr>"

definition lampStates :: "HAState list" where
  "lampStates = [mkState ''light.lamp1'' [(''friendly_name'', JString ''Living Room Lamp 1'')]]"

definition restHub :: hub where
  \<comment> \<open>no socket; the first areas path answers 403, the second 200; no device and no
      entity registry over REST; the states are served\<close>
  "restHub =
     \<lparr>socket = (\<lambda>ty n. Inl SocketError),
       http = (\<lambda>method endpoint b n.
         if endpoint = ''/api/areas'' then
           Inr (200, noBody\<lparr>asAreas :=
             Some [\<lparr>AreaID = ''living_room'', Name = ''Living Room'', Picture = [], Aliases = []\<rparr>]\<rparr>)
         else if endpoint = ''/api/config/area_registry'' then Inr (403, noBody)
         else if endpoint = ''/api/states'' then
           Inr (200, noBody\<lparr>asStates := Some lampStates\<rparr>)
         else Inr (404, noBody))\<rparr>"

definition brokenRegistryHub :: hub where
  \<comment> \<open>as \<open>restHub\<close>, but the entity registry path answers 200 with a body that is not a
      list of registrations\<close>
  "brokenRegistryHub =
     restHub\<lparr>http := (\<lambda>method endpoint b n.
        if endpoint = ''/api/config/entity_registry'' then Inr (200, noBody)
        else http restHub method endpoint b n)\<rparr>"


definition sampleBatch :: "jvalue list" where
  "sampleBatch =
     [JString ''light.a'',
      JObject [(''entity_id'', JString ''light.a''), (''action'', JString ''on'')],
      JObject [(''entity_id'', JString ''thermostat.hall''), (''action'', JString ''on'')],
      JObject [(''entity_id'', JString ''switch.b'')],
      JObject [(''action'', JString ''off'')],
      JObject [(''entity_id'', JString ''switch.c''), (''action'', JString ''off'')]]"

section \<open>Entity filter: proofs\<close>

lemma blacklistLoop_iff:
  "blacklistLoop rx entityID ps \<longleftrightarrow> (\<exists>p \<in> set ps. p = entityID \<or> rx p entityID = Some True)"
  by (induction ps) (auto split: option.splits bool.splits)

lemma whitelistLoop_iff:
  "whitelistLoop rx entityID ps \<longleftrightarrow> (\<exists>p \<in> set ps. rx p entityID = Some True)"
  by (induction ps) (auto split: option.splits bool.splits)

lemma filterLoop_append:
  "filterLoop rx cfg acc ents =
     acc @ filter (\<lambda>e. \<not> (\<exists>p \<in> set (EntityBlacklist cfg). p = EntityID e \<or> rx p (EntityID e) = Some True) \<and>
                 (EntityFilter cfg = [] \<or> (\<exists>p \<in> set (EntityFilter cfg). rx p (EntityID e) = Some True)))
             ents"
  by (induction ents arbitrary: acc)
     (simp_all add: isEntityBlacklisted_def isEntityWhitelisted_def
        blacklistLoop_iff whitelistLoop_iff)

text \<open>
  C7. \<open>filterEntities\<close> keeps, in input order, exactly the states whose identifier matches no
  blacklist pattern (a pattern matches when it equals the identifier or when it compiles
  and matches as a regular expression; a pattern that does not compile matches nothing)
  and, when the whitelist is non-empty, matches some whitelist regular expression. The
  function is total: no error is raised.
\<close>

theorem filterEntities_filter:
  "filterEntities rx cfg ents =
     filter (\<lambda>e. \<not> (\<exists>p \<in> set (EntityBlacklist cfg). p = EntityID e \<or> rx p (EntityID e) = Some True) \<and>
                 (EntityFilter cfg = [] \<or> (\<exists>p \<in> set (EntityFilter cfg). rx p (EntityID e) = Some True)))
       ents"
  by (simp add: filterEntities_def filterLoop_append)

theorem filterEntities_filter_witness:
  "filterEntities literalRegexp
     \<lparr>HAToken = [], HAURL = [], EntityFilter = [''light.''],
      EntityBlacklist = [''('', ''switch.a'', ''garage'']\<rparr>
     [mkState ''switch.a'' [], mkState ''light.kitchen'' [], mkState ''light.garage'' [],
      mkState ''switch.b'' [], mkState ''light.hall'' []]
   = [mkState ''light.kitchen'' [], mkState ''light.hall'' []]"
  using filterEntities_filter [of literalRegexp
     "\<lparr>HAToken = [], HAURL = [], EntityFilter = [''light.''],
       EntityBlacklist = [''('', ''switch.a'', ''garage'']\<rparr>"
     "[mkState ''switch.a'' [], mkState ''light.kitchen'' [], mkState ''light.garage'' [],
       mkState ''switch.b'' [], mkState ''light.hall'' []]"]
  by (simp add: literalRegexp_def mkState_def hasPrefix_def)

section \<open>Area cache: proofs\<close>

lemma map_of_fold_areas:
  "map_of (fold (\<lambda>a m. AList.update (AreaID a) a m) xs m0) k =
     (case filter (\<lambda>a. AreaID a = k) xs of [] \<Rightarrow> map_of m0 k | ys \<Rightarrow> Some (last ys))"
proof (induction xs arbitrary: m0)
  case Nil
  show ?case by simp
next
  case (Cons a xs)
  show ?case
    by (simp add: Cons.IH update_conv' split: list.splits)
qed

lemma map_of_buildAreas:
  "map_of (buildAreas xs) k =
     (case filter (\<lambda>a. AreaID a = k) xs of [] \<Rightarrow> None | ys \<Rightarrow> Some (last ys))"
  unfolding buildAreas_def by (simp add: map_of_fold_areas cong: list.case_cong)

lemma map_of_addDevice:
  "map_of (addDevice d m) =
     (if device_AreaID d \<noteq> [] then (map_of m)(device_ID d \<mapsto> device_AreaID d) else map_of m)"
  by (simp add: addDevice_def update_conv')

lemma map_of_fold_devices:
  "map_of (fold addDevice ds m0) k =
     (case filter (\<lambda>d. device_ID d = k \<and> device_AreaID d \<noteq> []) ds of
        [] \<Rightarrow> map_of m0 k
      | xs \<Rightarrow> Some (device_AreaID (last xs)))"
proof (induction ds arbitrary: m0)
  case Nil
  show ?case by simp
next
  case (Cons d ds)
  show ?case
    by (simp add: Cons.IH map_of_addDevice split: list.splits)
qed

lemma map_of_buildDevices:
  "map_of (buildDevices ds) k =
     (case filter (\<lambda>d. device_ID d = k \<and> device_AreaID d \<noteq> []) ds of
        [] \<Rightarrow> None
      | xs \<Rightarrow> Some (device_AreaID (last xs)))"
  unfolding buildDevices_def by (simp add: map_of_fold_devices cong: list.case_cong)

lemma map_of_addEntity:
  "map_of (addEntity devs e m) =
     (case resolveArea devs e of
        None \<Rightarrow> map_of m
      | Some a \<Rightarrow> (map_of m)(entity_EntityID e \<mapsto> a))"
  by (simp add: addEntity_def resolveArea_def update_conv' split: option.splits)

lemma map_of_fold_entities:
  "map_of (fold (addEntity devs) es m0) k =
     (case filter (\<lambda>e. entity_EntityID e = k \<and> resolveArea devs e \<noteq> None) es of
        [] \<Rightarrow> map_of m0 k
      | xs \<Rightarrow> resolveArea devs (last xs))"
proof (induction es arbitrary: m0)
  case Nil
  show ?case by simp
next
  case (Cons e es)
  show ?case
    by (cases "resolveArea devs e") (simp_all add: Cons.IH map_of_addEntity split: list.splits)
qed

lemma map_of_buildEntities:
  "map_of (buildEntities devs es) k =
     (case filter (\<lambda>e. entity_EntityID e = k \<and> resolveArea devs e \<noteq> None) es of
        [] \<Rightarrow> None
      | xs \<Rightarrow> resolveArea devs (last xs))"
  unfolding buildEntities_def by (simp add: map_of_fold_entities cong: list.case_cong)

lemma distinct_fold_update:
  assumes "\<And>x m. distinct (map fst m) \<Longrightarrow> distinct (map fst (f x m))"
  shows "distinct (map fst m) \<Longrightarrow> distinct (map fst (fold f xs m))"
  by (induction xs arbitrary: m) (simp_all add: assms)

lemma distinct_buildAreas: "distinct (map fst (buildAreas xs))"
  unfolding buildAreas_def
  by (rule distinct_fold_update) (simp_all add: distinct_update)

lemma distinct_buildDevices: "distinct (map fst (buildDevices ds))"
  unfolding buildDevices_def
  by (rule distinct_fold_update) (simp_all add: addDevice_def distinct_update)

lemma distinct_buildEntities: "distinct (map fst (buildEntities devs es))"
  unfolding buildEntities_def
  by (rule distinct_fold_update)
     (simp_all add: addEntity_def distinct_update split: option.splits)

lemma build_empty:
  "buildAreas [] = []" "buildDevices [] = []" "buildEntities devs [] = []"
  by (simp_all add: buildAreas_def buildDevices_def buildEntities_def)


lemma enrichWithArea_map:
  "fst (enrichWithArea rt h now done states (c, tr)) =
     map (enrichState (fst (snd (updateAreaCache rt h now done (c, tr))))) states"
proof -
  obtain e c' tr' where u: "updateAreaCache rt h now done (c, tr) = (e, c', tr')"
    by (cases "updateAreaCache rt h now done (c, tr)") auto
  have "areas c' = [] \<Longrightarrow> entities c' = [] \<Longrightarrow> map (enrichState c') states = states"
    by (simp add: enrichState_def map_idI)
  then show ?thesis
    by (auto simp: enrichWithArea_def u Let_def)
qed

lemma enrichWithArea_cache:
  "fst (snd (enrichWithArea rt h now done states (c, tr))) =
     fst (snd (updateAreaCache rt h now done (c, tr))) \<and>
   snd (snd (enrichWithArea rt h now done states (c, tr))) =
     snd (snd (updateAreaCache rt h now done (c, tr))) @ [RLock, RUnlock]"
  by (cases "updateAreaCache rt h now done (c, tr)") (auto simp: enrichWithArea_def Let_def)

lemma updateAreaCache_stale:
  assumes "staleness \<le> since now (lastUpdate c)"
    and "getAreas rt h (tr @ [Lock]) = (ra, tr1)"
    and "getDevices h (tr1 @ [Assign ''areas'']) = (rd, tr2)"
    and "getEntityRegistry rt h (tr2 @ [Assign ''devices'']) = (re, tr3)"
  shows "updateAreaCache rt h now done (c, tr) =
      (None, \<lparr>areas = buildAreas (orEmpty ra), devices = buildDevices (orEmpty rd),
              entities = buildEntities (buildDevices (orEmpty rd)) (orEmpty re),
              lastUpdate = done\<rparr>,
       tr3 @ [Assign ''entities'', Assign ''lastUpdate'', Unlock])"
  using assms by (simp add: updateAreaCache_def Let_def)

lemma updateAreaCache_fresh:
  assumes "since now (lastUpdate c) < staleness"
  shows "updateAreaCache rt h now done (c, tr) = (None, c, tr @ [Lock, Unlock])"
  using assms by (simp add: updateAreaCache_def Let_def)

lemma since_window:
  "done1 \<le> now2 \<Longrightarrow> now2 < done1 + staleness \<Longrightarrow> since now2 done1 < staleness"
  by (simp add: since_def Let_def staleness_def maxDuration_def minDuration_def)

section \<open>Traces of the pipeline\<close>

lemma areasRestLoop_trace:
  "\<exists>rest. snd (areasRestLoop h eps tr) = tr @ rest \<and> list_all isNetwork rest"
proof (induction eps arbitrary: tr)
  case Nil
  show ?case by simp
next
  case (Cons ep eps)
  obtain rest where r: "snd (areasRestLoop h eps (tr @ [HTTPRequest ''GET'' ep None])) =
      (tr @ [HTTPRequest ''GET'' ep None]) @ rest" "list_all isNetwork rest"
    using Cons.IH by blast
  have n: "list_all isNetwork (HTTPRequest ''GET'' ep None # rest)"
    using r(2) by simp
  have "snd (areasRestLoop h (ep # eps) tr) = tr @ [HTTPRequest ''GET'' ep None] \<or>
        snd (areasRestLoop h (ep # eps) tr) = tr @ HTTPRequest ''GET'' ep None # rest"
    by (cases "http h ''GET'' ep None (length tr)")
       (auto simp: makeHARequest_def r(1) split: option.splits)
  then show ?case
    using n by auto
qed


lemma extractAreasFromStates_trace:
  "snd (extractAreasFromStates rt h tr) = tr @ [HTTPRequest ''GET'' ''/api/states'' None]"
  by (simp add: extractAreasFromStates_def makeHARequest_def split: sum.splits option.splits prod.splits)

lemma extractEntityAreaFromStates_trace:
  "snd (extractEntityAreaFromStates rt h tr) = tr @ [HTTPRequest ''GET'' ''/api/states'' None]"
  by (simp add: extractEntityAreaFromStates_def makeHARequest_def split: sum.splits option.splits prod.splits)

lemma getAreasViaWebSocket_trace:
  "snd (getAreasViaWebSocket h tr) = tr @ [WSRequest ''config/area_registry/list'']"
  by (simp add: getAreasViaWebSocket_def socketRequest_def split: sum.splits option.splits)

lemma getDevicesViaWebSocket_trace:
  "snd (getDevicesViaWebSocket h tr) = tr @ [WSRequest ''config/device_registry/list'']"
  by (simp add: getDevicesViaWebSocket_def socketRequest_def split: sum.splits option.splits)

lemma getEntityRegistryViaWebSocket_trace:
  "snd (getEntityRegistryViaWebSocket h tr) = tr @ [WSRequest ''config/entity_registry/list'']"
  by (simp add: getEntityRegistryViaWebSocket_def socketRequest_def split: sum.splits option.splits)

lemma getAreas_trace:
  "\<exists>rest. snd (getAreas rt h tr) = tr @ WSRequest ''config/area_registry/list'' # rest \<and>
          list_all isNetwork rest"
proof -
  let ?tr1 = "tr @ [WSRequest ''config/area_registry/list'']"
  obtain r where w: "getAreasViaWebSocket h tr = (r, ?tr1)"
    using getAreasViaWebSocket_trace [of h tr] by (cases "getAreasViaWebSocket h tr") auto
  obtain rest where l: "snd (areasRestLoop h endpoints ?tr1) = ?tr1 @ rest" "list_all isNetwork rest"
    using areasRestLoop_trace by blast
  obtain o2 tr2 where l2: "areasRestLoop h endpoints ?tr1 = (o2, tr2)"
    by (cases "areasRestLoop h endpoints ?tr1") auto
  have tr2: "tr2 = ?tr1 @ rest" using l l2 by simp
  have n: "list_all isNetwork (rest @ [HTTPRequest ''GET'' ''/api/states'' None])"
    using l(2) by simp
  have "snd (getAreas rt h tr) = tr @ WSRequest ''config/area_registry/list'' # [] \<or>
        snd (getAreas rt h tr) = tr @ WSRequest ''config/area_registry/list'' # rest \<or>
        snd (getAreas rt h tr) =
          tr @ WSRequest ''config/area_registry/list'' # (rest @ [HTTPRequest ''GET'' ''/api/states'' None])"
    unfolding getAreas_def w
    using extractAreasFromStates_trace [of rt h tr2]
    by (cases o2) (auto simp: l2 tr2 split: sum.splits)
  then show ?thesis
    using l(2) n by auto
qed

lemma getDevices_trace:
  "\<exists>rest. snd (getDevices h tr) = tr @ WSRequest ''config/device_registry/list'' # rest \<and>
          list_all isNetwork rest"
proof -
  let ?tr1 = "tr @ [WSRequest ''config/device_registry/list'']"
  obtain r where w: "getDevicesViaWebSocket h tr = (r, ?tr1)"
    using getDevicesViaWebSocket_trace [of h tr] by (cases "getDevicesViaWebSocket h tr") auto
  have "snd (getDevices h tr) = tr @ WSRequest ''config/device_registry/list'' # [] \<or>
        snd (getDevices h tr) = tr @ WSRequest ''config/device_registry/list'' #
          [HTTPRequest ''GET'' ''/api/config/device_registry'' None]"
    unfolding getDevices_def w
    by (auto simp: makeHARequest_def split: sum.splits option.splits)
  then show ?thesis
    by auto
qed

lemma getEntityRegistry_trace:
  "\<exists>rest. snd (getEntityRegistry rt h tr) = tr @ WSRequest ''config/entity_registry/list'' # rest \<and>
          list_all isNetwork rest"
proof -
  let ?tr1 = "tr @ [WSRequest ''config/entity_registry/list'']"
  let ?tr2 = "?tr1 @ [HTTPRequest ''GET'' ''/api/config/entity_registry'' None]"
  obtain r where w: "getEntityRegistryViaWebSocket h tr = (r, ?tr1)"
    using getEntityRegistryViaWebSocket_trace [of h tr]
    by (cases "getEntityRegistryViaWebSocket h tr") auto
  have "snd (getEntityRegistry rt h tr) = tr @ WSRequest ''config/entity_registry/list'' # [] \<or>
        snd (getEntityRegistry rt h tr) = tr @ WSRequest ''config/entity_registry/list'' #
          [HTTPRequest ''GET'' ''/api/config/entity_registry'' None] \<or>
        snd (getEntityRegistry rt h tr) = tr @ WSRequest ''config/entity_registry/list'' #
          [HTTPRequest ''GET'' ''/api/config/entity_registry'' None,
           HTTPRequest ''GET'' ''/api/states'' None]"
    unfolding getEntityRegistry_def w
    using extractEntityAreaFromStates_trace [of rt h ?tr2]
    by (auto simp: makeHARequest_def split: sum.splits option.splits)
  then show ?thesis
    by auto
qed

section \<open>Sample runs\<close>

lemma sampleRuntime_visitsAll: "visitsAll sampleRuntime"
  by (simp add: visitsAll_def sampleRuntime_def)

lemma sampleRuntime_lowersASCII: "lowersASCII (ToLower sampleRuntime)"
  by (simp add: lowersASCII_def sampleRuntime_def)

lemma areaCache_stale: "staleness \<le> since 1000000000000 (lastUpdate areaCache)"
  by (simp add: areaCache_def since_def staleness_def maxDuration_def minDuration_def)

lemma atticCache_stale: "staleness \<le> since 2000000000000 (lastUpdate atticCache)"
  by (simp add: atticCache_def since_def staleness_def maxDuration_def minDuration_def)

lemma atticCache_fresh:
  "since 1299000000000 (lastUpdate atticCache) < staleness"
  by (simp add: atticCache_def since_def staleness_def maxDuration_def minDuration_def)

lemma atticCache_stale_later:
  "staleness \<le> since 1301000000000 (lastUpdate atticCache)"
  by (simp add: atticCache_def since_def staleness_def maxDuration_def minDuration_def)

lemma partialHub_getAreas:
  "getAreas rt partialHub (tr @ [Lock]) =
     (Inr [kitchen], tr @ [Lock, WSRequest ''config/area_registry/list''])"
  by (simp add: getAreas_def getAreasViaWebSocket_def socketRequest_def partialHub_def noBody_def)

lemma partialHub_getDevices:
  "getDevices partialHub ((tr @ [Lock, WSRequest ''config/area_registry/list'']) @ [Assign ''areas'']) =
     (Inl TransportError,
      tr @ [Lock, WSRequest ''config/area_registry/list'', Assign ''areas'',
            WSRequest ''config/device_registry/list'',
            HTTPRequest ''GET'' ''/api/config/device_registry'' None])"
  by (simp add: getDevices_def getDevicesViaWebSocket_def socketRequest_def makeHARequest_def
        partialHub_def noBody_def)

lemma partialHub_getEntityRegistry:
  "getEntityRegistry rt partialHub
     ((tr @ [Lock, WSRequest ''config/area_registry/list'', Assign ''areas'',
             WSRequest ''config/device_registry/list'',
             HTTPRequest ''GET'' ''/api/config/device_registry'' None]) @ [Assign ''devices'']) =
     (Inr [\<lparr>entity_EntityID = ''light.a'', entity_DeviceID = [], entity_AreaID = ''kitchen''\<rparr>],
      tr @ [Lock, WSRequest ''config/area_registry/list'', Assign ''areas'',
            WSRequest ''config/device_registry/list'',
            HTTPRequest ''GET'' ''/api/config/device_registry'' None, Assign ''devices'',
            WSRequest ''config/entity_registry/list''])"
  by (simp add: getEntityRegistry_def getEntityRegistryViaWebSocket_def socketRequest_def
        partialHub_def noBody_def)

lemma socketHub_getAreas:
  "getAreas rt socketHub (tr @ [Lock]) =
     (Inr [kitchen], tr @ [Lock, WSRequest ''config/area_registry/list''])"
  by (simp add: getAreas_def getAreasViaWebSocket_def socketRequest_def socketHub_def noBody_def)

lemma socketHub_getDevices:
  "getDevices socketHub ((tr @ [Lock, WSRequest ''config/area_registry/list'']) @ [Assign ''areas'']) =
     (Inr [\<lparr>device_ID = ''dev1'', device_AreaID = ''kitchen'', device_Name = ''Plug''\<rparr>],
      tr @ [Lock, WSRequest ''config/area_registry/list'', Assign ''areas'',
            WSRequest ''config/device_registry/list''])"
  by (simp add: getDevices_def getDevicesViaWebSocket_def socketRequest_def socketHub_def noBody_def)

lemma socketHub_getEntityRegistry:
  "getEntityRegistry rt socketHub
     ((tr @ [Lock, WSRequest ''config/area_registry/list'', Assign ''areas'',
             WSRequest ''config/device_registry/list'']) @ [Assign ''devices'']) =
     (Inr [\<lparr>entity_EntityID = ''light.a'', entity_DeviceID = ''dev1'', entity_AreaID = []\<rparr>],
      tr @ [Lock, WSRequest ''config/area_registry/list'', Assign ''areas'',
            WSRequest ''config/device_registry/list'', Assign ''devices'',
            WSRequest ''config/entity_registry/list''])"
  by (simp add: getEntityRegistry_def getEntityRegistryViaWebSocket_def socketRequest_def
        socketHub_def noBody_def)

lemma areasDownHub_getAreas:
  "getAreas rt areasDownHub (tr @ [Lock]) =
     (Inl TransportError,
      tr @ [Lock, WSRequest ''config/area_registry/list'',
            HTTPRequest ''GET'' ''/api/config/area_registry'' None,
            HTTPRequest ''GET'' ''/api/areas'' None,
            HTTPRequest ''GET'' ''/api/states'' None])"
  by (simp add: getAreas_def getAreasViaWebSocket_def socketRequest_def makeHARequest_def
        endpoints_def extractAreasFromStates_def areasDownHub_def)

lemma areasDownHub_getDevices:
  "getDevices areasDownHub
     ((tr @ [Lock, WSRequest ''config/area_registry/list'',
             HTTPRequest ''GET'' ''/api/config/area_registry'' None,
             HTTPRequest ''GET'' ''/api/areas'' None,
             HTTPRequest ''GET'' ''/api/states'' None]) @ [Assign ''areas'']) =
     (Inr [\<lparr>device_ID = ''dev1'', device_AreaID = ''kitchen'', device_Name = ''Plug''\<rparr>,
           \<lparr>device_ID = ''dev2'', device_AreaID = [], device_Name = ''Bulb''\<rparr>],
      tr @ [Lock, WSRequest ''config/area_registry/list'',
            HTTPRequest ''GET'' ''/api/config/area_registry'' None,
            HTTPRequest ''GET'' ''/api/areas'' None,
            HTTPRequest ''GET'' ''/api/states'' None, Assign ''areas'',
            WSRequest ''config/device_registry/list''])"
  by (simp add: getDevices_def getDevicesViaWebSocket_def socketRequest_def areasDownHub_def noBody_def)

lemma areasDownHub_getEntityRegistry:
  "getEntityRegistry rt areasDownHub
     ((tr @ [Lock, WSRequest ''config/area_registry/list'',
             HTTPRequest ''GET'' ''/api/config/area_registry'' None,
             HTTPRequest ''GET'' ''/api/areas'' None,
             HTTPRequest ''GET'' ''/api/states'' None, Assign ''areas'',
             WSRequest ''config/device_registry/list'']) @ [Assign ''devices'']) =
     (Inr [\<lparr>entity_EntityID = ''light.a'', entity_DeviceID = ''dev1'', entity_AreaID = []\<rparr>,
           \<lparr>entity_EntityID = ''light.b'', entity_DeviceID = ''dev2'', entity_AreaID = []\<rparr>,
           \<lparr>entity_EntityID = ''light.c'', entity_DeviceID = [], entity_AreaID = ''hall''\<rparr>],
      tr @ [Lock, WSRequest ''config/area_registry/list'',
            HTTPRequest ''GET'' ''/api/config/area_registry'' None,
            HTTPRequest ''GET'' ''/api/areas'' None,
            HTTPRequest ''GET'' ''/api/states'' None, Assign ''areas'',
            WSRequest ''config/device_registry/list'', Assign ''devices'',
            WSRequest ''config/entity_registry/list''])"
  by (simp add: getEntityRegistry_def getEntityRegistryViaWebSocket_def socketRequest_def
        areasDownHub_def noBody_def)

section \<open>Cache refresh\<close>

text \<open>
  C3. In a refresh that runs (the cache is stale), each registry fetch that fails is
  replaced by the empty list for that registry only. The refresh returns no error. Its
  events are, in this order: \<open>Lock\<close>; the socket request for areas and any further requests
  of that fetch; the assignment of the areas map; the socket request for devices and any
  further request of that fetch; the assignment of the device map; the socket request for
  registrations and any further requests; the assignment of the entity map and of the
  timestamp; \<open>Unlock\<close>. So every registry is fetched whatever the others returned, and the
  three maps are replaced between the one \<open>Lock\<close> and the one \<open>Unlock\<close> of the call. Each
  new map has one entry for each key and depends on the list fetched in this refresh
  alone: the areas map maps an id to the last fetched area with that id; the device map
  maps an id to the area of the last fetched device with that id and a non-empty area;
  the entity map maps an entity id to what its last resolving registration resolves to;
  and the map of a registry whose fetch failed is empty.
\<close>

theorem refresh_degrades_per_registry:
  assumes stale: "staleness \<le> since now (lastUpdate c)"
    and a: "getAreas rt h (tr @ [Lock]) = (ra, tr1)"
    and d: "getDevices h (tr1 @ [Assign ''areas'']) = (rd, tr2)"
    and e: "getEntityRegistry rt h (tr2 @ [Assign ''devices'']) = (re, tr3)"
  shows "\<exists>c'. updateAreaCache rt h now done (c, tr) =
             (None, c', tr3 @ [Assign ''entities'', Assign ''lastUpdate'', Unlock]) \<and>
           distinct (map fst (areas c')) \<and>
           distinct (map fst (devices c')) \<and>
           distinct (map fst (entities c')) \<and>
           (\<forall>k. map_of (areas c') k =
              (case filter (\<lambda>a. AreaID a = k) (case ra of Inl x \<Rightarrow> [] | Inr xs \<Rightarrow> xs) of
                 [] \<Rightarrow> None
               | ys \<Rightarrow> Some (last ys))) \<and>
           (\<forall>k. map_of (devices c') k =
              (case filter (\<lambda>d. device_ID d = k \<and> device_AreaID d \<noteq> [])
                      (case rd of Inl x \<Rightarrow> [] | Inr ds \<Rightarrow> ds) of
                 [] \<Rightarrow> None
               | ds \<Rightarrow> Some (device_AreaID (last ds)))) \<and>
           (\<forall>k. map_of (entities c') k =
              (case filter (\<lambda>e. entity_EntityID e = k \<and> resolveArea (devices c') e \<noteq> None)
                      (case re of Inl x \<Rightarrow> [] | Inr es \<Rightarrow> es) of
                 [] \<Rightarrow> None
               | es \<Rightarrow> resolveArea (devices c') (last es))) \<and>
           ((\<exists>x. ra = Inl x) \<longrightarrow> areas c' = []) \<and>
           ((\<exists>x. rd = Inl x) \<longrightarrow> devices c' = []) \<and>
           ((\<exists>x. re = Inl x) \<longrightarrow> entities c' = []) \<and>
           lastUpdate c' = done \<and>
           (\<exists>r1 r2 r3.
              tr1 = tr @ Lock # WSRequest ''config/area_registry/list'' # r1 \<and>
              tr2 = tr1 @ Assign ''areas'' # WSRequest ''config/device_registry/list'' # r2 \<and>
              tr3 = tr2 @ Assign ''devices'' # WSRequest ''config/entity_registry/list'' # r3 \<and>
              list_all isNetwork (r1 @ r2 @ r3))"
proof -
  obtain r1 where t1: "tr1 = tr @ Lock # WSRequest ''config/area_registry/list'' # r1"
      and n1: "list_all isNetwork r1"
    using getAreas_trace [of rt h "tr @ [Lock]"] a by auto
  obtain r2 where t2: "tr2 = tr1 @ Assign ''areas'' # WSRequest ''config/device_registry/list'' # r2"
      and n2: "list_all isNetwork r2"
    using getDevices_trace [of h "tr1 @ [Assign ''areas'']"] d by auto
  obtain r3 where t3: "tr3 = tr2 @ Assign ''devices'' # WSRequest ''config/entity_registry/list'' # r3"
      and n3: "list_all isNetwork r3"
    using getEntityRegistry_trace [of rt h "tr2 @ [Assign ''devices'']"] e by auto
  have tr: "\<exists>r1 r2 r3.
              tr1 = tr @ Lock # WSRequest ''config/area_registry/list'' # r1 \<and>
              tr2 = tr1 @ Assign ''areas'' # WSRequest ''config/device_registry/list'' # r2 \<and>
              tr3 = tr2 @ Assign ''devices'' # WSRequest ''config/entity_registry/list'' # r3 \<and>
              list_all isNetwork (r1 @ r2 @ r3)"
    using t1 t2 t3 n1 n2 n3 by auto
  let ?c = "\<lparr>areas = buildAreas (orEmpty ra), devices = buildDevices (orEmpty rd),
             entities = buildEntities (buildDevices (orEmpty rd)) (orEmpty re),
             lastUpdate = done\<rparr>"
  note u = updateAreaCache_stale [OF stale a d e, of "done"]
  have o: "orEmpty ra = (case ra of Inl x \<Rightarrow> [] | Inr xs \<Rightarrow> xs)"
      "orEmpty rd = (case rd of Inl x \<Rightarrow> [] | Inr ds \<Rightarrow> ds)"
      "orEmpty re = (case re of Inl x \<Rightarrow> [] | Inr es \<Rightarrow> es)"
    by (simp_all add: orEmpty_def)
  have ma: "\<forall>k. map_of (areas ?c) k =
              (case filter (\<lambda>a. AreaID a = k) (case ra of Inl x \<Rightarrow> [] | Inr xs \<Rightarrow> xs) of
                 [] \<Rightarrow> None
               | ys \<Rightarrow> Some (last ys))"
    by (simp add: map_of_buildAreas o(1) [symmetric])
  have md: "\<forall>k. map_of (devices ?c) k =
              (case filter (\<lambda>d. device_ID d = k \<and> device_AreaID d \<noteq> [])
                      (case rd of Inl x \<Rightarrow> [] | Inr ds \<Rightarrow> ds) of
                 [] \<Rightarrow> None
               | ds \<Rightarrow> Some (device_AreaID (last ds)))"
    by (simp add: map_of_buildDevices o(2) [symmetric])
  have me: "\<forall>k. map_of (entities ?c) k =
              (case filter (\<lambda>e. entity_EntityID e = k \<and> resolveArea (devices ?c) e \<noteq> None)
                      (case re of Inl x \<Rightarrow> [] | Inr es \<Rightarrow> es) of
                 [] \<Rightarrow> None
               | es \<Rightarrow> resolveArea (devices ?c) (last es))"
    by (simp add: map_of_buildEntities o(3) [symmetric] cong: list.case_cong)
  have di: "distinct (map fst (areas ?c))" "distinct (map fst (devices ?c))"
      "distinct (map fst (entities ?c))"
    by (simp_all add: distinct_buildAreas distinct_buildDevices distinct_buildEntities)
  have em: "(\<exists>x. ra = Inl x) \<longrightarrow> areas ?c = []" "(\<exists>x. rd = Inl x) \<longrightarrow> devices ?c = []"
      "(\<exists>x. re = Inl x) \<longrightarrow> entities ?c = []"
    by (auto simp: orEmpty_def build_empty)
  have lu: "lastUpdate ?c = done" by simp
  show ?thesis
    using u di ma md me em lu tr by blast
qed

theorem refresh_degrades_per_registry_witness:
  "staleness \<le> since 2000000000000 (lastUpdate atticCache) \<and>
   (\<exists>c'. updateAreaCache sampleRuntime areasDownHub 2000000000000 2003000000000 (atticCache, []) =
           (None, c',
            [Lock, WSRequest ''config/area_registry/list'',
             HTTPRequest ''GET'' ''/api/config/area_registry'' None,
             HTTPRequest ''GET'' ''/api/areas'' None,
             HTTPRequest ''GET'' ''/api/states'' None, Assign ''areas'',
             WSRequest ''config/device_registry/list'', Assign ''devices'',
             WSRequest ''config/entity_registry/list'',
             Assign ''entities'', Assign ''lastUpdate'', Unlock]) \<and>
         areas c' = [] \<and>
         map_of (devices c') ''dev1'' = Some ''kitchen'' \<and>
         map_of (devices c') ''dev2'' = None \<and>
         map_of (devices c') ''dev9'' = None \<and>
         map_of (entities c') ''light.a'' = Some ''kitchen'' \<and>
         map_of (entities c') ''light.b'' = None \<and>
         map_of (entities c') ''light.c'' = Some ''hall'' \<and>
         map_of (entities c') ''light.z'' = None \<and>
         lastUpdate c' = 2003000000000)"
proof -
  from refresh_degrades_per_registry [OF atticCache_stale
      areasDownHub_getAreas [of sampleRuntime "[]"] areasDownHub_getDevices [of "[]"]
      areasDownHub_getEntityRegistry [of sampleRuntime "[]"], of 2003000000000]
  obtain c' where u: "updateAreaCache sampleRuntime areasDownHub 2000000000000 2003000000000
        (atticCache, []) =
        (None, c',
         ([] @ [Lock, WSRequest ''config/area_registry/list'',
          HTTPRequest ''GET'' ''/api/config/area_registry'' None,
          HTTPRequest ''GET'' ''/api/areas'' None,
          HTTPRequest ''GET'' ''/api/states'' None, Assign ''areas'',
          WSRequest ''config/device_registry/list'', Assign ''devices'',
          WSRequest ''config/entity_registry/list'']) @
         [Assign ''entities'', Assign ''lastUpdate'', Unlock])"
    and md: "\<forall>k. map_of (devices c') k =
              (case filter (\<lambda>d. device_ID d = k \<and> device_AreaID d \<noteq> [])
                 [\<lparr>device_ID = ''dev1'', device_AreaID = ''kitchen'', device_Name = ''Plug''\<rparr>,
                  \<lparr>device_ID = ''dev2'', device_AreaID = [], device_Name = ''Bulb''\<rparr>] of
                 [] \<Rightarrow> None
               | ds \<Rightarrow> Some (device_AreaID (last ds)))"
    and me: "\<forall>k. map_of (entities c') k =
              (case filter (\<lambda>e. entity_EntityID e = k \<and> resolveArea (devices c') e \<noteq> None)
                 [\<lparr>entity_EntityID = ''light.a'', entity_DeviceID = ''dev1'', entity_AreaID = []\<rparr>,
                  \<lparr>entity_EntityID = ''light.b'', entity_DeviceID = ''dev2'', entity_AreaID = []\<rparr>,
                  \<lparr>entity_EntityID = ''light.c'', entity_DeviceID = [], entity_AreaID = ''hall''\<rparr>] of
                 [] \<Rightarrow> None
               | es \<Rightarrow> resolveArea (devices c') (last es))"
    and em: "areas c' = []"
    and lu: "lastUpdate c' = 2003000000000"
    by auto
  have d1: "map_of (devices c') ''dev1'' = Some ''kitchen''"
    and d2: "map_of (devices c') ''dev2'' = None"
    and d9: "map_of (devices c') ''dev9'' = None"
    using md by simp_all
  have "map_of (entities c') ''light.a'' = Some ''kitchen''"
    and "map_of (entities c') ''light.b'' = None"
    and "map_of (entities c') ''light.c'' = Some ''hall''"
    and "map_of (entities c') ''light.z'' = None"
    using me d1 d2 by (simp_all add: resolveArea_def)
  then show ?thesis
    using u em lu d1 d2 d9 atticCache_stale by simp
qed

text \<open>
  The second of two calls can refresh although it comes within five minutes of the
  completion of the first: the first call, at 1299 s, finds the cache of 1000 s fresh and
  leaves its timestamp; the second call, at 1301 s, finds it stale, fetches the three
  registries and replaces the maps.
\<close>

theorem second_call_after_noop_refreshes:
  "updateAreaCache sampleRuntime socketHub 1299000000000 1299000000000 (atticCache, []) =
     (None, atticCache, [Lock, Unlock]) \<and>
   (1299000000000 :: int) \<le> 1301000000000 \<and> 1301000000000 < 1299000000000 + staleness \<and>
   updateAreaCache sampleRuntime socketHub 1301000000000 1302000000000 (atticCache, [Lock, Unlock]) =
     (None,
      \<lparr>areas = [(''kitchen'', kitchen)], devices = [(''dev1'', ''kitchen'')],
       entities = [(''light.a'', ''kitchen'')], lastUpdate = 1302000000000\<rparr>,
      [Lock, Unlock, Lock, WSRequest ''config/area_registry/list'', Assign ''areas'',
       WSRequest ''config/device_registry/list'', Assign ''devices'',
       WSRequest ''config/entity_registry/list'',
       Assign ''entities'', Assign ''lastUpdate'', Unlock])"
proof -
  have 1: "updateAreaCache sampleRuntime socketHub 1299000000000 1299000000000 (atticCache, []) =
     (None, atticCache, [Lock, Unlock])"
    using updateAreaCache_fresh [OF atticCache_fresh] by simp
  note u = updateAreaCache_stale [OF atticCache_stale_later
      socketHub_getAreas [of sampleRuntime "[Lock, Unlock]"]
      socketHub_getDevices [of "[Lock, Unlock]"]
      socketHub_getEntityRegistry [of sampleRuntime "[Lock, Unlock]"], of 1302000000000]
  have 2: "updateAreaCache sampleRuntime socketHub 1301000000000 1302000000000
       (atticCache, [Lock, Unlock]) =
     (None,
      \<lparr>areas = [(''kitchen'', kitchen)], devices = [(''dev1'', ''kitchen'')],
       entities = [(''light.a'', ''kitchen'')], lastUpdate = 1302000000000\<rparr>,
      [Lock, Unlock, Lock, WSRequest ''config/area_registry/list'', Assign ''areas'',
       WSRequest ''config/device_registry/list'', Assign ''devices'',
       WSRequest ''config/entity_registry/list'',
       Assign ''entities'', Assign ''lastUpdate'', Unlock])"
    by (simp add: u orEmpty_def buildAreas_def buildDevices_def addDevice_def
          buildEntities_def addEntity_def kitchen_def)
  show ?thesis
    using 1 2 by (simp add: staleness_def)
qed

text \<open>
  C2 (amended). When a call of the refresh operation finds the cache stale, and so runs the
  fetch sequence, a second call within the five minutes after the first has completed does
  no network I/O and assigns nothing: it locks and unlocks the mutex and leaves the three
  maps and the timestamp as they are. This holds for every hub, so whatever the registry
  fetches of the first call returned: the first call completes with the timestamp set to
  its completion time, and it has done network I/O.
\<close>

theorem second_refresh_in_window_is_noop:
  assumes stale: "staleness \<le> since now1 (lastUpdate c)"
    and first: "updateAreaCache rt1 h1 now1 done1 (c, tr) = (e1, c1, tr1)"
    and after: "done1 \<le> now2"
    and within: "now2 < done1 + staleness"
  shows "updateAreaCache rt2 h2 now2 done2 (c1, tr1) = (None, c1, tr1 @ [Lock, Unlock]) \<and>
         lastUpdate c1 = done1 \<and>
         WSRequest ''config/area_registry/list'' \<in> set (drop (length tr) tr1) \<and>
         length tr < length tr1"
proof -
  obtain ra t1 where a: "getAreas rt1 h1 (tr @ [Lock]) = (ra, t1)"
    by (cases "getAreas rt1 h1 (tr @ [Lock])") auto
  obtain rd t2 where d: "getDevices h1 (t1 @ [Assign ''areas'']) = (rd, t2)"
    by (cases "getDevices h1 (t1 @ [Assign ''areas''])") auto
  obtain re t3 where e: "getEntityRegistry rt1 h1 (t2 @ [Assign ''devices'']) = (re, t3)"
    by (cases "getEntityRegistry rt1 h1 (t2 @ [Assign ''devices''])") auto
  note u = updateAreaCache_stale [OF stale a d e, of done1]
  have lu: "lastUpdate c1 = done1"
    and t: "tr1 = t3 @ [Assign ''entities'', Assign ''lastUpdate'', Unlock]"
    using u first by auto
  obtain r1 where t1: "t1 = tr @ Lock # WSRequest ''config/area_registry/list'' # r1"
    using getAreas_trace [of rt1 h1 "tr @ [Lock]"] a by auto
  obtain r2 where t2: "t2 = t1 @ Assign ''areas'' # r2"
    using getDevices_trace [of h1 "t1 @ [Assign ''areas'']"] d by auto
  obtain r3 where t3: "t3 = t2 @ Assign ''devices'' # r3"
    using getEntityRegistry_trace [of rt1 h1 "t2 @ [Assign ''devices'']"] e by auto
  have io: "WSRequest ''config/area_registry/list'' \<in> set (drop (length tr) tr1)"
    by (simp add: t t3 t2 t1)
  have len: "length tr < length tr1"
    by (simp add: t t3 t2 t1)
  have "since now2 (lastUpdate c1) < staleness"
    using since_window [OF after within] lu by simp
  then have "updateAreaCache rt2 h2 now2 done2 (c1, tr1) = (None, c1, tr1 @ [Lock, Unlock])"
    by (rule updateAreaCache_fresh)
  then show ?thesis using lu io len by simp
qed

theorem second_refresh_in_window_is_noop_witness:
  "staleness \<le> since 1000000000000 (lastUpdate areaCache) \<and>
   (1002000000000 :: int) \<le> 1003000000000 \<and> 1003000000000 < 1002000000000 + staleness \<and>
   (\<exists>c1 tr1. updateAreaCache sampleRuntime partialHub 1000000000000 1002000000000 (areaCache, []) =
        (None, c1, tr1) \<and>
      updateAreaCache sampleRuntime socketHub 1003000000000 1004000000000 (c1, tr1) =
        (None, c1, tr1 @ [Lock, Unlock]) \<and>
      lastUpdate c1 = 1002000000000 \<and> devices c1 = [] \<and> length tr1 = 10)"
proof -
  have w: "1003000000000 < 1002000000000 + staleness"
    by (simp add: staleness_def)
  note u = updateAreaCache_stale [OF areaCache_stale
      partialHub_getAreas [of sampleRuntime "[]"] partialHub_getDevices [of "[]"]
      partialHub_getEntityRegistry [of sampleRuntime "[]"], of 1002000000000]
  show ?thesis
    using second_refresh_in_window_is_noop [OF areaCache_stale u _ w,
        of sampleRuntime socketHub 1004000000000]
      areaCache_stale w
    by (simp add: u orEmpty_def build_empty)
qed

section \<open>Entity map and enrichment\<close>



lemma socketHub_enrich:
  "enrichWithArea sampleRuntime socketHub 1000000000000 1002000000000
     [mkState ''light.a'' [], mkState ''switch.b'' []] (areaCache, []) =
   ([(mkState ''light.a'' [])\<lparr>Area := Some kitchen\<rparr>, mkState ''switch.b'' []],
    \<lparr>areas = [(''kitchen'', kitchen)], devices = [(''dev1'', ''kitchen'')],
     entities = [(''light.a'', ''kitchen'')], lastUpdate = 1002000000000\<rparr>,
    [Lock, WSRequest ''config/area_registry/list'', Assign ''areas'',
     WSRequest ''config/device_registry/list'', Assign ''devices'',
     WSRequest ''config/entity_registry/list'',
     Assign ''entities'', Assign ''lastUpdate'', Unlock, RLock, RUnlock])"
proof -
  note up = updateAreaCache_stale [OF areaCache_stale
      socketHub_getAreas [of sampleRuntime "[]"] socketHub_getDevices [of "[]"]
      socketHub_getEntityRegistry [of sampleRuntime "[]"], of 1002000000000]
  show ?thesis
    by (simp add: enrichWithArea_def up orEmpty_def buildAreas_def buildDevices_def addDevice_def
          buildEntities_def addEntity_def enrichState_def kitchen_def mkState_def)
qed


text \<open>
  C10. Area enrichment returns a list of the same length and order in which each state
  differs from its input at most in the Area field: entity id, state string, attributes and
  the two timestamps are those of the input, and a state whose entity id is not in the
  entity map of the cache, or whose mapped area id is not in the areas map, is returned
  unchanged. When the areas map and the entity map of the cache are both empty, the input
  list is returned as it is. The cache is the one left by the refresh that enrichment runs
  first, and enrichment then takes and releases the read lock.
\<close>

theorem enrichWithArea_frame:
  assumes "enrichWithArea rt h now done states (c, tr) = (states', c', tr')"
  shows "length states' = length states \<and>
    (\<forall>i < length states.
        states' ! i = (states ! i)\<lparr>Area := Area (states' ! i)\<rparr> \<and>
        EntityID (states' ! i) = EntityID (states ! i) \<and>
        State (states' ! i) = State (states ! i) \<and>
        Attributes (states' ! i) = Attributes (states ! i) \<and>
        LastChanged (states' ! i) = LastChanged (states ! i) \<and>
        LastUpdated (states' ! i) = LastUpdated (states ! i) \<and>
        ((case map_of (entities c') (EntityID (states ! i)) of
            None \<Rightarrow> True
          | Some areaID \<Rightarrow> map_of (areas c') areaID = None) \<longrightarrow>
         states' ! i = states ! i)) \<and>
    (areas c' = [] \<and> entities c' = [] \<longrightarrow> states' = states) \<and>
    c' = fst (snd (updateAreaCache rt h now done (c, tr))) \<and>
    tr' = snd (snd (updateAreaCache rt h now done (c, tr))) @ [RLock, RUnlock]"
proof -
  have cache: "c' = fst (snd (updateAreaCache rt h now done (c, tr)))"
      "tr' = snd (snd (updateAreaCache rt h now done (c, tr))) @ [RLock, RUnlock]"
    using enrichWithArea_cache [of rt h now "done" states c tr] assms by simp_all
  then obtain e t where u: "updateAreaCache rt h now done (c, tr) = (e, c', t)"
    by (cases "updateAreaCache rt h now done (c, tr)") auto
  have m: "states' = map (enrichState c') states"
    using enrichWithArea_map [of rt h now "done" states c tr] assms u by simp
  have f: "enrichState c' s = s\<lparr>Area := Area (enrichState c' s)\<rparr>" for s
    by (simp add: enrichState_def split: option.splits)
  have g: "(case map_of (entities c') (EntityID s) of None \<Rightarrow> True
            | Some areaID \<Rightarrow> map_of (areas c') areaID = None) \<Longrightarrow> enrichState c' s = s" for s
    by (simp add: enrichState_def split: option.splits)
  have fields: "EntityID (enrichState c' s) = EntityID s \<and> State (enrichState c' s) = State s \<and>
      Attributes (enrichState c' s) = Attributes s \<and> LastChanged (enrichState c' s) = LastChanged s \<and>
      LastUpdated (enrichState c' s) = LastUpdated s" for s
    by (simp add: enrichState_def split: option.splits)
  have empty: "areas c' = [] \<and> entities c' = [] \<longrightarrow> states' = states"
    using assms u by (auto simp: enrichWithArea_def Let_def split: if_splits)
  show ?thesis
    unfolding m using f g fields empty m cache by simp
qed

theorem enrichWithArea_frame_witness:
  "\<exists>states' c' tr'.
      enrichWithArea sampleRuntime socketHub 1000000000000 1002000000000
        [mkState ''light.a'' [], mkState ''switch.b'' []] (areaCache, []) = (states', c', tr') \<and>
      length states' = 2 \<and>
      EntityID (states' ! 0) = ''light.a'' \<and> Area (states' ! 0) = Some kitchen \<and>
      Attributes (states' ! 0) = [] \<and>
      map_of (entities c') ''switch.b'' = None \<and>
      states' ! 1 = mkState ''switch.b'' []"
proof -
  note f = enrichWithArea_frame [OF socketHub_enrich]
  note f0 = f [THEN conjunct2, THEN conjunct1, rule_format, of 0]
  note f1 = f [THEN conjunct2, THEN conjunct1, rule_format, of 1]
  show ?thesis
    using f [THEN conjunct1] f0 f1 socketHub_enrich
    by (simp add: mkState_def)
qed

section \<open>Resolution tiers\<close>




lemma lamp1_entities:
  "entitiesFromStates (ToLower sampleRuntime) [] lampStates =
     [\<lparr>entity_EntityID = ''light.lamp1'', entity_DeviceID = [], entity_AreaID = ''living_room''\<rparr>]"
  by code_simp

text \<open>
  The claim that a decode failure of the entity-registry REST response falls through to the
  extraction from the entity states fails: with the socket tier down and a 200 response
  whose body is not a list of registrations, \<open>getEntityRegistry\<close> returns the decode error
  after two requests and never asks for the states, which this hub would have served.
\<close>

theorem decode_failure_is_returned:
  "socketFails brokenRegistryHub ''config/entity_registry/list'' [] asEntities \<and>
   http brokenRegistryHub ''GET'' ''/api/config/entity_registry'' None 1 = Inr (200, noBody) \<and>
   asEntities noBody = None \<and>
   getEntityRegistry sampleRuntime brokenRegistryHub [] =
     (Inl DecodeError,
      [WSRequest ''config/entity_registry/list'',
       HTTPRequest ''GET'' ''/api/config/entity_registry'' None]) \<and>
   extractEntityAreaFromStates sampleRuntime brokenRegistryHub
      [WSRequest ''config/entity_registry/list'',
       HTTPRequest ''GET'' ''/api/config/entity_registry'' None] =
     (Inr [\<lparr>entity_EntityID = ''light.lamp1'', entity_DeviceID = [], entity_AreaID = ''living_room''\<rparr>],
      [WSRequest ''config/entity_registry/list'',
       HTTPRequest ''GET'' ''/api/config/entity_registry'' None,
       HTTPRequest ''GET'' ''/api/states'' None])"
  by (simp add: socketFails_def brokenRegistryHub_def restHub_def noBody_def getEntityRegistry_def
        getEntityRegistryViaWebSocket_def socketRequest_def makeHARequest_def
        extractEntityAreaFromStates_def lamp1_entities)

text \<open>
  C4 (amended). For the entity-registration registry, when the socket tier fails, the
  single REST path is tried. A response with a status other than 200 falls through to the
  extraction from the entity states, which asks for the states. A transport error, and a
  200 response whose body does not decode, are returned as errors without the extraction;
  a 200 response that decodes is the result.
\<close>

theorem entity_registry_rest_tier:
  assumes "socketFails h ''config/entity_registry/list'' tr asEntities"
  shows "getEntityRegistry rt h tr =
     (let tr2 = tr @ [WSRequest ''config/entity_registry/list'',
                      HTTPRequest ''GET'' ''/api/config/entity_registry'' None] in
      case http h ''GET'' ''/api/config/entity_registry'' None (Suc (length tr)) of
        Inl e \<Rightarrow> (Inl e, tr2)
      | Inr (status, b) \<Rightarrow>
          if status \<noteq> 200 then extractEntityAreaFromStates rt h tr2
          else (case asEntities b of None \<Rightarrow> (Inl DecodeError, tr2) | Some es \<Rightarrow> (Inr es, tr2))) \<and>
     snd (extractEntityAreaFromStates rt h
            (tr @ [WSRequest ''config/entity_registry/list'',
                   HTTPRequest ''GET'' ''/api/config/entity_registry'' None])) =
       tr @ [WSRequest ''config/entity_registry/list'',
             HTTPRequest ''GET'' ''/api/config/entity_registry'' None,
             HTTPRequest ''GET'' ''/api/states'' None]"
proof
  show "getEntityRegistry rt h tr =
     (let tr2 = tr @ [WSRequest ''config/entity_registry/list'',
                      HTTPRequest ''GET'' ''/api/config/entity_registry'' None] in
      case http h ''GET'' ''/api/config/entity_registry'' None (Suc (length tr)) of
        Inl e \<Rightarrow> (Inl e, tr2)
      | Inr (status, b) \<Rightarrow>
          if status \<noteq> 200 then extractEntityAreaFromStates rt h tr2
          else (case asEntities b of None \<Rightarrow> (Inl DecodeError, tr2) | Some es \<Rightarrow> (Inr es, tr2)))"
    using assms
    by (simp add: socketFails_def getEntityRegistry_def getEntityRegistryViaWebSocket_def
          socketRequest_def makeHARequest_def Let_def split: sum.splits option.splits prod.splits)
  show "snd (extractEntityAreaFromStates rt h
            (tr @ [WSRequest ''config/entity_registry/list'',
                   HTTPRequest ''GET'' ''/api/config/entity_registry'' None])) =
       tr @ [WSRequest ''config/entity_registry/list'',
             HTTPRequest ''GET'' ''/api/config/entity_registry'' None,
             HTTPRequest ''GET'' ''/api/states'' None]"
    by (simp add: extractEntityAreaFromStates_trace)
qed

theorem entity_registry_rest_tier_witness:
  "socketFails restHub ''config/entity_registry/list'' [] asEntities \<and>
   getEntityRegistry sampleRuntime restHub [] =
     (Inr [\<lparr>entity_EntityID = ''light.lamp1'', entity_DeviceID = [], entity_AreaID = ''living_room''\<rparr>],
      [WSRequest ''config/entity_registry/list'',
       HTTPRequest ''GET'' ''/api/config/entity_registry'' None,
       HTTPRequest ''GET'' ''/api/states'' None])"
proof -
  have f: "socketFails restHub ''config/entity_registry/list'' [] asEntities"
    by (simp add: socketFails_def restHub_def)
  show ?thesis
    using entity_registry_rest_tier [OF f, of sampleRuntime] f
    by (simp add: restHub_def noBody_def extractEntityAreaFromStates_def makeHARequest_def
          lamp1_entities)
qed

section \<open>Control executor and batch control\<close>

lemma controlEntity_trace:
  "snd (controlEntity h entityID action tr) =
     tr @ (case controlRequest entityID action of None \<Rightarrow> [] | Some r \<Rightarrow> [r])"
  by (auto simp: controlEntity_def controlRequest_def makeHARequest_def Let_def
           split: sum.splits prod.splits)

lemma controlEntity_traceD:
  "controlEntity h entityID action tr = (r, tr') \<Longrightarrow>
     tr' = tr @ (case controlRequest entityID action of None \<Rightarrow> [] | Some q \<Rightarrow> [q])"
  using controlEntity_trace [of h entityID action tr] by simp

text \<open>
  C8. \<open>controlEntity\<close> returns an error and issues no request when the entity id starts
  with neither \<open>light.\<close> nor \<open>switch.\<close> (unsupported entity type), or the action is none
  of \<open>on\<close>, \<open>turn_on\<close>, \<open>off\<close>, \<open>turn_off\<close> (unsupported action). Otherwise it issues exactly
  one request, a POST to \<open>/api/services/<domain>/<service>\<close> whose payload is the entity
  id, and it succeeds if and only if the hub answers that request with status 200.
\<close>

theorem controlEntity_contract:
  "(\<not> (hasPrefix entityID ''light.'' \<or> hasPrefix entityID ''switch.'') \<longrightarrow>
      controlEntity h entityID action tr = (Some (UnsupportedEntityType entityID), tr)) \<and>
   ((hasPrefix entityID ''light.'' \<or> hasPrefix entityID ''switch.'') \<and>
      action \<notin> {''on'', ''turn_on'', ''off'', ''turn_off''} \<longrightarrow>
      controlEntity h entityID action tr = (Some (UnsupportedAction action), tr)) \<and>
   ((hasPrefix entityID ''light.'' \<or> hasPrefix entityID ''switch.'') \<and>
      action \<in> {''on'', ''turn_on'', ''off'', ''turn_off''} \<longrightarrow>
      (\<exists>domain service.
         domain = (if hasPrefix entityID ''light.'' then ''light'' else ''switch'') \<and>
         service = (if action \<in> {''on'', ''turn_on''} then ''turn_on'' else ''turn_off'') \<and>
         snd (controlEntity h entityID action tr) =
           tr @ [HTTPRequest ''POST'' (''/api/services/'' @ domain @ ''/'' @ service)
                   (Some (JObject [(''entity_id'', JString entityID)]))] \<and>
         (fst (controlEntity h entityID action tr) = None \<longleftrightarrow>
            (\<exists>b. http h ''POST'' (''/api/services/'' @ domain @ ''/'' @ service)
                   (Some (JObject [(''entity_id'', JString entityID)])) (length tr) = Inr (200, b)))))"
  by (auto simp: controlEntity_def makeHARequest_def Let_def split: sum.splits prod.splits)

theorem controlEntity_contract_witness:
  "controlEntity socketHub ''light.kitchen'' ''toggle'' [] = (Some (UnsupportedAction ''toggle''), []) \<and>
   controlEntity socketHub ''thermostat.hall'' ''on'' [] =
     (Some (UnsupportedEntityType ''thermostat.hall''), []) \<and>
   controlEntity socketHub ''light.kitchen'' ''on'' [] =
     (None, [HTTPRequest ''POST'' ''/api/services/light/turn_on''
               (Some (JObject [(''entity_id'', JString ''light.kitchen'')]))]) \<and>
   fst (controlEntity restHub ''switch.fan'' ''turn_off'' []) \<noteq> None"
proof -
  have 1: "controlEntity socketHub ''light.kitchen'' ''toggle'' [] = (Some (UnsupportedAction ''toggle''), [])"
    using controlEntity_contract [where entityID = "''light.kitchen''" and action = "''toggle''" and h = socketHub and tr = "[]"]
    by (simp add: hasPrefix_def prod_eq_iff)
  have 2: "controlEntity socketHub ''thermostat.hall'' ''on'' [] =
     (Some (UnsupportedEntityType ''thermostat.hall''), [])"
    using controlEntity_contract [where entityID = "''thermostat.hall''" and action = "''on''" and h = socketHub and tr = "[]"]
    by (simp add: hasPrefix_def prod_eq_iff)
  have 3: "controlEntity socketHub ''light.kitchen'' ''on'' [] =
     (None, [HTTPRequest ''POST'' ''/api/services/light/turn_on''
               (Some (JObject [(''entity_id'', JString ''light.kitchen'')]))])"
    using controlEntity_contract [where entityID = "''light.kitchen''" and action = "''on''" and h = socketHub and tr = "[]"]
    by (simp add: hasPrefix_def prod_eq_iff socketHub_def)
  have 4: "fst (controlEntity restHub ''switch.fan'' ''turn_off'' []) \<noteq> None"
    using controlEntity_contract [where entityID = "''switch.fan''" and action = "''turn_off''" and h = restHub and tr = "[]"]
    by (simp add: hasPrefix_def restHub_def)
  show ?thesis using 1 2 3 4 by simp
qed

lemma batchItem_last:
  "butlast (b_results (batchItem h i item st)) = b_results st \<and>
   b_results (batchItem h i item st) \<noteq> [] \<and>
   r_index (last (b_results (batchItem h i item st))) = i \<and>
   (r_success (last (b_results (batchItem h i item st))) \<longleftrightarrow>
      r_error (last (b_results (batchItem h i item st))) = None) \<and>
   aggregateMessage (last (b_results (batchItem h i item st))) =
      itemFailure h (b_trace st) i item \<and>
   (r_success (last (b_results (batchItem h i item st))) \<longleftrightarrow>
      itemFailure h (b_trace st) i item = None) \<and>
   b_errors (batchItem h i item st) =
     b_errors st @ (case itemFailure h (b_trace st) i item of None \<Rightarrow> [] | Some m \<Rightarrow> [m])"
  by (simp add: batchItem_def butlast_append aggregateMessage_def itemFailure_def
        split: jvalue.splits option.splits prod.splits)

lemma batchItem_step:
  "\<exists>r. b_results (batchItem h i item st) = b_results st @ [r] \<and> r_index r = i \<and>
        (r_success r \<longleftrightarrow> r_error r = None) \<and>
        aggregateMessage r = itemFailure h (b_trace st) i item \<and>
        (r_success r \<longleftrightarrow> itemFailure h (b_trace st) i item = None) \<and>
        b_errors (batchItem h i item st) =
          b_errors st @ (case aggregateMessage r of None \<Rightarrow> [] | Some m \<Rightarrow> [m])"
proof -
  let ?st = "batchItem h i item st"
  note l = batchItem_last [of h i item st]
  have r: "b_results ?st = b_results st @ [last (b_results ?st)]"
    using l by (metis append_butlast_last_id)
  show ?thesis
  proof (intro exI conjI)
    show "b_results ?st = b_results st @ [last (b_results ?st)]" by (rule r)
    show "r_index (last (b_results ?st)) = i" using l by blast
    show "r_success (last (b_results ?st)) \<longleftrightarrow> r_error (last (b_results ?st)) = None"
      using l by blast
    show "aggregateMessage (last (b_results ?st)) = itemFailure h (b_trace st) i item"
      using l by blast
    show "r_success (last (b_results ?st)) \<longleftrightarrow> itemFailure h (b_trace st) i item = None"
      using l by blast
    have "b_errors ?st =
        b_errors st @ (case itemFailure h (b_trace st) i item of None \<Rightarrow> [] | Some m \<Rightarrow> [m])"
      using l by blast
    moreover have "aggregateMessage (last (b_results ?st)) = itemFailure h (b_trace st) i item"
      using l by blast
    ultimately show "b_errors ?st =
        b_errors st @ (case aggregateMessage (last (b_results ?st)) of None \<Rightarrow> [] | Some m \<Rightarrow> [m])"
      by simp
  qed
qed

lemma batchItem_trace:
  "b_trace (batchItem h i item st) =
     b_trace st @ (case itemRequest item of None \<Rightarrow> [] | Some r \<Rightarrow> [r])"
  by (auto simp add: batchItem_def itemRequest_def dest!: controlEntity_traceD
           split: jvalue.splits option.splits prod.splits)

lemma length_filter_all:
  "length (filter P xs) = length xs \<longleftrightarrow> (\<forall>x \<in> set xs. P x)"
proof
  assume e: "length (filter P xs) = length xs"
  show "\<forall>x \<in> set xs. P x"
  proof
    fix x
    assume "x \<in> set xs"
    then show "P x"
      using length_filter_less [of x xs P] e by auto
  qed
next
  assume "\<forall>x \<in> set xs. P x"
  then show "length (filter P xs) = length xs"
    by simp
qed

lemma batchLoop_inv:
  "\<exists>rs. b_results (batchLoop h k items st) = b_results st @ rs \<and>
        length rs = length items \<and>
        (\<forall>i < length items.
           r_index (rs ! i) = k + i \<and>
           (r_success (rs ! i) \<longleftrightarrow> r_error (rs ! i) = None) \<and>
           aggregateMessage (rs ! i) =
             itemFailure h (b_trace st @ List.map_filter itemRequest (take i items)) (k + i) (items ! i) \<and>
           (r_success (rs ! i) \<longleftrightarrow>
              itemFailure h (b_trace st @ List.map_filter itemRequest (take i items)) (k + i) (items ! i) = None)) \<and>
        b_errors (batchLoop h k items st) = b_errors st @ List.map_filter aggregateMessage rs \<and>
        b_trace (batchLoop h k items st) = b_trace st @ List.map_filter itemRequest items"
proof (induction items arbitrary: k st)
  case Nil
  show ?case by (simp add: map_filter_simps)
next
  case (Cons item items)
  let ?st = "batchItem h k item st"
  obtain r where s: "b_results ?st = b_results st @ [r]" "r_index r = k"
      "r_success r \<longleftrightarrow> r_error r = None"
      "aggregateMessage r = itemFailure h (b_trace st) k item"
      "r_success r \<longleftrightarrow> itemFailure h (b_trace st) k item = None"
      "b_errors ?st = b_errors st @ (case aggregateMessage r of None \<Rightarrow> [] | Some m \<Rightarrow> [m])"
    using batchItem_step [of h k item st] by auto
  note t = batchItem_trace [of h k item st]
  obtain rs where l: "b_results (batchLoop h (Suc k) items ?st) = b_results ?st @ rs"
      "length rs = length items"
      "\<forall>i < length items.
           r_index (rs ! i) = Suc k + i \<and>
           (r_success (rs ! i) \<longleftrightarrow> r_error (rs ! i) = None) \<and>
           aggregateMessage (rs ! i) =
             itemFailure h (b_trace ?st @ List.map_filter itemRequest (take i items)) (Suc k + i) (items ! i) \<and>
           (r_success (rs ! i) \<longleftrightarrow>
              itemFailure h (b_trace ?st @ List.map_filter itemRequest (take i items)) (Suc k + i) (items ! i) = None)"
      "b_errors (batchLoop h (Suc k) items ?st) = b_errors ?st @ List.map_filter aggregateMessage rs"
      "b_trace (batchLoop h (Suc k) items ?st) = b_trace ?st @ List.map_filter itemRequest items"
    using Cons.IH [of "Suc k" ?st] by blast
  have tr: "b_trace (batchLoop h k (item # items) st) =
      b_trace st @ List.map_filter itemRequest (item # items)"
    using l(5) t by (cases "itemRequest item") (simp_all add: map_filter_simps)
  have res: "b_results (batchLoop h k (item # items) st) = b_results st @ (r # rs)"
    using s(1) l(1) by simp
  have len: "length (r # rs) = length (item # items)"
    using l(2) by simp
  have errs: "b_errors (batchLoop h k (item # items) st) =
      b_errors st @ List.map_filter aggregateMessage (r # rs)"
    using s(6) l(4) by (cases "aggregateMessage r") (simp_all add: map_filter_simps)
  have each: "r_index ((r # rs) ! i) = k + i \<and>
       ((r_success ((r # rs) ! i)) \<longleftrightarrow> r_error ((r # rs) ! i) = None) \<and>
       aggregateMessage ((r # rs) ! i) =
         itemFailure h (b_trace st @ List.map_filter itemRequest (take i (item # items))) (k + i)
           ((item # items) ! i) \<and>
       (r_success ((r # rs) ! i) \<longleftrightarrow>
         itemFailure h (b_trace st @ List.map_filter itemRequest (take i (item # items))) (k + i)
           ((item # items) ! i) = None)"
    if "i < length (item # items)" for i
  proof (cases i)
    case 0
    then show ?thesis
      using s(2) s(3) s(4) s(5) by (simp add: map_filter_simps)
  next
    case (Suc j)
    then have j: "j < length items" using that by simp
    have e: "b_trace st @ List.map_filter itemRequest (take i (item # items)) =
        b_trace ?st @ List.map_filter itemRequest (take j items)"
      using Suc t by (cases "itemRequest item") (simp_all add: map_filter_simps)
    have k: "Suc k + j = k + i"
      using Suc by simp
    note x = l(3) [rule_format, OF j, unfolded k]
    have n: "(r # rs) ! i = rs ! j" "(item # items) ! i = items ! j"
      using Suc by simp_all
    show ?thesis
      unfolding e n by (rule x)
  qed
  show ?case
    using res len each errs tr by blast
qed

text \<open>
  C9. The batch handler never returns an error to its caller. Given a list of items, it
  returns a result payload in which every item has exactly one entry, at its index. Item
  \<open>i\<close> is reached with the requests of the items before it issued, whatever happened to
  them: its entry is a failure exactly when the item itself fails there (it is not an
  object, it lacks a string entity id or a string action, or \<open>controlEntity\<close> returns an
  error for it, be it an unsupported entity type or action or an error of the hub), and the
  message that the aggregate error list holds for the entry is the one of that failure. An
  entry is a failure exactly when it carries an error. The success count is the number of
  successful entries; the aggregate error list holds the message of every failed entry, in
  order, and is left out exactly when no item fails; and the requests issued are those of
  all the items that name a supported entity and action, in order.
\<close>

theorem batch_control_never_aborts:
  "snd (fst (controlMultipleEntitiesHandler h arguments tr)) = None \<and>
   (map_of arguments ''entities'' = Some (JArray items) \<longrightarrow>
      (\<exists>succ resp.
         controlMultipleEntitiesHandler h arguments tr =
           ((ToolResultText (length items) succ (length items - succ) resp, None),
            tr @ List.map_filter itemRequest items) \<and>
         length (results resp) = length items \<and>
         (\<forall>i < length items.
            r_index (results resp ! i) = i \<and>
            (r_success (results resp ! i) \<longleftrightarrow> r_error (results resp ! i) = None) \<and>
            (r_success (results resp ! i) \<longleftrightarrow>
               itemFailure h (tr @ List.map_filter itemRequest (take i items)) i (items ! i) = None) \<and>
            aggregateMessage (results resp ! i) =
               itemFailure h (tr @ List.map_filter itemRequest (take i items)) i (items ! i)) \<and>
         succ = length (filter r_success (results resp)) \<and>
         (case errors resp of None \<Rightarrow> [] | Some es \<Rightarrow> es) =
           List.map_filter aggregateMessage (results resp) \<and>
         (errors resp = None \<longleftrightarrow> succ = length items)))"
proof (intro conjI impI)
  show "snd (fst (controlMultipleEntitiesHandler h arguments tr)) = None"
    by (simp add: controlMultipleEntitiesHandler_def Let_def split: option.splits jvalue.splits)
next
  assume a: "map_of arguments ''entities'' = Some (JArray items)"
  let ?init = "\<lparr>b_results = [], b_errors = [], b_trace = tr\<rparr>"
  let ?st = "batchLoop h 0 items ?init"
  let ?F = "\<lambda>i. itemFailure h (tr @ List.map_filter itemRequest (take i items)) i (items ! i)"
  obtain rs where l: "b_results ?st = rs" "length rs = length items"
      "\<forall>i < length items.
           r_index (rs ! i) = i \<and>
           (r_success (rs ! i) \<longleftrightarrow> r_error (rs ! i) = None) \<and>
           aggregateMessage (rs ! i) = ?F i \<and>
           (r_success (rs ! i) \<longleftrightarrow> ?F i = None)"
      "b_errors ?st = List.map_filter aggregateMessage rs"
      "b_trace ?st = tr @ List.map_filter itemRequest items"
    using batchLoop_inv [of h 0 items ?init] by auto
  let ?es = "List.map_filter aggregateMessage rs"
  let ?resp = "\<lparr>results = rs, errors = (if length ?es > 0 then Some ?es else None)\<rparr>"
  let ?succ = "length (filter r_success rs)"
  have agg: "r_success x \<longleftrightarrow> aggregateMessage x = None" if xin: "x \<in> set rs" for x
  proof -
    obtain i where i: "i < length items" "x = rs ! i"
      using xin l(2) by (auto simp: in_set_conv_nth)
    note y = l(3) [rule_format, OF i(1)]
    note y3 = y [THEN conjunct2, THEN conjunct2, THEN conjunct1]
    note y4 = y [THEN conjunct2, THEN conjunct2, THEN conjunct2]
    show ?thesis
      unfolding i(2) y3 by (rule y4)
  qed
  have es: "?es = [] \<longleftrightarrow> (\<forall>x \<in> set rs. r_success x)"
    using agg by (induction rs) (auto simp: map_filter_simps split: option.splits)
  have all: "(\<forall>x \<in> set rs. r_success x) \<longleftrightarrow> ?succ = length rs"
    using length_filter_all [of r_success rs] by blast
  have none: "errors ?resp = None \<longleftrightarrow> ?succ = length items"
    using es all l(2) by simp
  have h: "controlMultipleEntitiesHandler h arguments tr =
         ((ToolResultText (length items) ?succ (length items - ?succ) ?resp, None),
          tr @ List.map_filter itemRequest items)"
    using a l(1) l(4) l(5) by (simp add: controlMultipleEntitiesHandler_def Let_def)
  have e: "(case errors ?resp of None \<Rightarrow> [] | Some es \<Rightarrow> es) =
         List.map_filter aggregateMessage (results ?resp)"
    by simp
  have each: "\<forall>i < length items.
            r_index (results ?resp ! i) = i \<and>
            (r_success (results ?resp ! i) \<longleftrightarrow> r_error (results ?resp ! i) = None) \<and>
            (r_success (results ?resp ! i) \<longleftrightarrow> ?F i = None) \<and>
            aggregateMessage (results ?resp ! i) = ?F i"
    using l(3) by auto
  have len: "length (results ?resp) = length items"
    using l(2) by simp
  have sc: "?succ = length (filter r_success (results ?resp))"
    by simp
  show "\<exists>succ resp.
         controlMultipleEntitiesHandler h arguments tr =
           ((ToolResultText (length items) succ (length items - succ) resp, None),
            tr @ List.map_filter itemRequest items) \<and>
         length (results resp) = length items \<and>
         (\<forall>i < length items.
            r_index (results resp ! i) = i \<and>
            (r_success (results resp ! i) \<longleftrightarrow> r_error (results resp ! i) = None) \<and>
            (r_success (results resp ! i) \<longleftrightarrow>
               itemFailure h (tr @ List.map_filter itemRequest (take i items)) i (items ! i) = None) \<and>
            aggregateMessage (results resp ! i) =
               itemFailure h (tr @ List.map_filter itemRequest (take i items)) i (items ! i)) \<and>
         succ = length (filter r_success (results resp)) \<and>
         (case errors resp of None \<Rightarrow> [] | Some es \<Rightarrow> es) =
           List.map_filter aggregateMessage (results resp) \<and>
         (errors resp = None \<longleftrightarrow> succ = length items)"
  proof (intro exI conjI)
    show "controlMultipleEntitiesHandler h arguments tr =
         ((ToolResultText (length items) ?succ (length items - ?succ) ?resp, None),
          tr @ List.map_filter itemRequest items)"
      by (rule h)
    show "length (results ?resp) = length items"
      by (rule len)
    show "\<forall>i < length items.
            r_index (results ?resp ! i) = i \<and>
            (r_success (results ?resp ! i) \<longleftrightarrow> r_error (results ?resp ! i) = None) \<and>
            (r_success (results ?resp ! i) \<longleftrightarrow> ?F i = None) \<and>
            aggregateMessage (results ?resp ! i) = ?F i"
      by (rule each)
    show "?succ = length (filter r_success (results ?resp))"
      by (rule sc)
    show "(case errors ?resp of None \<Rightarrow> [] | Some es \<Rightarrow> es) =
         List.map_filter aggregateMessage (results ?resp)"
      by (rule e)
    show "errors ?resp = None \<longleftrightarrow> ?succ = length items"
      by (rule none)
  qed
qed

lemma sampleBatch_requests:
  "List.map_filter itemRequest sampleBatch =
     [HTTPRequest ''POST'' ''/api/services/light/turn_on''
        (Some (JObject [(''entity_id'', JString ''light.a'')])),
      HTTPRequest ''POST'' ''/api/services/switch/turn_off''
        (Some (JObject [(''entity_id'', JString ''switch.c'')]))]"
  by code_simp

lemma sampleBatch_length: "length sampleBatch = 6"
  by (simp add: sampleBatch_def)

lemma sampleBatch_failures:
  "map (\<lambda>i. itemFailure batchHub ([] @ List.map_filter itemRequest (take i sampleBatch)) i
               (sampleBatch ! i)) [0, 1, 2, 3, 4, 5] =
     [Some (MustBeObject 0),
      None,
      Some (EntityFailed ''thermostat.hall'' (UnsupportedEntityType ''thermostat.hall'')),
      Some (ActionRequired ''switch.b''),
      Some (EntityIDRequired 4),
      Some (EntityFailed ''switch.c'' (StatusError 503))]"
  by code_simp

lemma map_filter_map:
  "List.map_filter f xs = List.map_filter (\<lambda>x. x) (map f xs)"
  by (induction xs) (simp_all add: map_filter_simps split: option.splits)

lemma length_filter_map:
  "length (filter P xs) = length (filter (\<lambda>b. b) (map P xs))"
  by (induction xs) simp_all

theorem batch_control_never_aborts_witness:
  "map_of [(''entities'', JArray sampleBatch)] ''entities'' = Some (JArray sampleBatch) \<and>
   (\<exists>resp.
      controlMultipleEntitiesHandler batchHub [(''entities'', JArray sampleBatch)] [] =
        ((ToolResultText 6 1 5 resp, None),
         [HTTPRequest ''POST'' ''/api/services/light/turn_on''
            (Some (JObject [(''entity_id'', JString ''light.a'')])),
          HTTPRequest ''POST'' ''/api/services/switch/turn_off''
            (Some (JObject [(''entity_id'', JString ''switch.c'')]))]) \<and>
      map r_index (results resp) = [0, 1, 2, 3, 4, 5] \<and>
      map r_success (results resp) = [False, True, False, False, False, False] \<and>
      map aggregateMessage (results resp) =
        [Some (MustBeObject 0),
         None,
         Some (EntityFailed ''thermostat.hall'' (UnsupportedEntityType ''thermostat.hall'')),
         Some (ActionRequired ''switch.b''),
         Some (EntityIDRequired 4),
         Some (EntityFailed ''switch.c'' (StatusError 503))] \<and>
      errors resp = Some
        [MustBeObject 0,
         EntityFailed ''thermostat.hall'' (UnsupportedEntityType ''thermostat.hall''),
         ActionRequired ''switch.b'',
         EntityIDRequired 4,
         EntityFailed ''switch.c'' (StatusError 503)])"
proof -
  define F where "F i = itemFailure batchHub
      ([] @ List.map_filter itemRequest (take i sampleBatch)) i (sampleBatch ! i)" for i
  have m: "map_of [(''entities'', JArray sampleBatch)] ''entities'' = Some (JArray sampleBatch)"
    by simp
  have u: "[0..<6] = [0, 1, 2, 3, 4, 5::nat]"
    by (simp add: upt_rec)
  note t = batch_control_never_aborts [of batchHub "[(''entities'', JArray sampleBatch)]" "[]"
      sampleBatch, THEN conjunct2, rule_format, OF m, unfolded sampleBatch_length]
  from t show ?thesis
  proof (elim exE conjE)
    fix succ resp
    assume r1: "controlMultipleEntitiesHandler batchHub [(''entities'', JArray sampleBatch)] [] =
         ((ToolResultText 6 succ (6 - succ) resp, None),
          [] @ List.map_filter itemRequest sampleBatch)"
      and r2: "length (results resp) = 6"
      and r3: "\<forall>i < 6. r_index (results resp ! i) = i \<and>
          (r_success (results resp ! i) \<longleftrightarrow> r_error (results resp ! i) = None) \<and>
          (r_success (results resp ! i) \<longleftrightarrow>
             itemFailure batchHub ([] @ List.map_filter itemRequest (take i sampleBatch)) i
               (sampleBatch ! i) = None) \<and>
          aggregateMessage (results resp ! i) =
             itemFailure batchHub ([] @ List.map_filter itemRequest (take i sampleBatch)) i
               (sampleBatch ! i)"
      and r4: "succ = length (filter r_success (results resp))"
      and r5: "(case errors resp of None \<Rightarrow> [] | Some es \<Rightarrow> es) =
         List.map_filter aggregateMessage (results resp)"
      and r6: "errors resp = None \<longleftrightarrow> succ = 6"
    have fs: "map F [0..<6] =
       [Some (MustBeObject 0),
        None,
        Some (EntityFailed ''thermostat.hall'' (UnsupportedEntityType ''thermostat.hall'')),
        Some (ActionRequired ''switch.b''),
        Some (EntityIDRequired 4),
        Some (EntityFailed ''switch.c'' (StatusError 503))]"
      unfolding u using sampleBatch_failures by (simp add: F_def)
    note a1 = r3 [rule_format, THEN conjunct1]
    note a3 = r3 [rule_format, THEN conjunct2, THEN conjunct2, THEN conjunct1, folded F_def]
    note a4 = r3 [rule_format, THEN conjunct2, THEN conjunct2, THEN conjunct2, folded F_def]
    have idx: "map r_index (results resp) = [0..<6]"
      by (rule nth_equalityI) (simp_all add: r2 a1)
    have agg: "map aggregateMessage (results resp) = map F [0..<6]"
      by (rule nth_equalityI) (simp_all add: r2 a4)
    have suc: "map r_success (results resp) = map (\<lambda>f. f = None) (map F [0..<6])"
      by (rule nth_equalityI) (simp_all add: r2 a3)
    have suc': "map r_success (results resp) = [False, True, False, False, False, False]"
      unfolding suc fs by simp
    have n: "succ = 1"
      unfolding r4 length_filter_map [of r_success] suc' by simp
    have es: "List.map_filter aggregateMessage (results resp) =
        [MustBeObject 0,
         EntityFailed ''thermostat.hall'' (UnsupportedEntityType ''thermostat.hall''),
         ActionRequired ''switch.b'',
         EntityIDRequired 4,
         EntityFailed ''switch.c'' (StatusError 503)]"
      unfolding map_filter_map [of aggregateMessage] agg fs by (simp add: map_filter_simps)
    have e: "errors resp = Some
        [MustBeObject 0,
         EntityFailed ''thermostat.hall'' (UnsupportedEntityType ''thermostat.hall''),
         ActionRequired ''switch.b'',
         EntityIDRequired 4,
         EntityFailed ''switch.c'' (StatusError 503)]"
      using r5 r6 n unfolding es by (cases "errors resp") simp_all
    have r: "controlMultipleEntitiesHandler batchHub [(''entities'', JArray sampleBatch)] [] =
        ((ToolResultText 6 1 5 resp, None),
         [HTTPRequest ''POST'' ''/api/services/light/turn_on''
            (Some (JObject [(''entity_id'', JString ''light.a'')])),
          HTTPRequest ''POST'' ''/api/services/switch/turn_off''
            (Some (JObject [(''entity_id'', JString ''switch.c'')]))])"
      using r1 unfolding n sampleBatch_requests by simp
    note idx' = idx [unfolded u]
    note agg' = agg [unfolded fs]
    show ?thesis
      by (intro conjI exI [of _ resp]) (rule m r idx' suc' agg' e)+
  qed
qed

section \<open>Heuristic area extraction\<close>

lemma extractAreasStep_candidates:
  "extractAreasStep lw s m = fold (\<lambda>n. addArea (normalizeAreaID lw n) n) (areaCandidates lw s) m"
  by (simp add: extractAreasStep_def areaCandidates_def explicitArea_def nameArea_def
        possibleArea_def Let_def split: option.splits jvalue.splits)

lemma fold_extractAreasStep:
  "fold (extractAreasStep lw) states m =
     fold (\<lambda>n. addArea (normalizeAreaID lw n) n) (concat (map (areaCandidates lw) states)) m"
  by (induction states arbitrary: m) (simp_all add: extractAreasStep_candidates)

lemma map_of_addArea:
  "map_of (addArea k n m) k' =
     (case map_of m k' of Some a \<Rightarrow> Some a
      | None \<Rightarrow> if k' = k then Some \<lparr>AreaID = k, Name = n, Picture = [], Aliases = []\<rparr> else None)"
  by (auto simp: addArea_def map_add_def split: option.splits)

lemma map_of_fold_addArea:
  "map_of (fold (\<lambda>n. addArea (normalizeAreaID lw n) n) ns m) k =
     (case map_of m k of
        Some a \<Rightarrow> Some a
      | None \<Rightarrow> map_option (namedArea lw) (find (\<lambda>n. normalizeAreaID lw n = k) ns))"
proof (induction ns arbitrary: m)
  case Nil
  show ?case by (simp split: option.splits)
next
  case (Cons n ns)
  show ?case
    by (simp add: Cons.IH map_of_addArea namedArea_def [abs_def] split: option.splits)
qed

lemma distinct_fold_addArea:
  "distinct (map fst m) \<Longrightarrow> distinct (map fst (fold (\<lambda>n. addArea (normalizeAreaID lw n) n) ns m))"
proof (induction ns arbitrary: m)
  case Nil
  then show ?case by simp
next
  case (Cons n ns)
  have "distinct (map fst (addArea (normalizeAreaID lw n) n m))"
    using Cons.prems by (auto simp: addArea_def map_of_eq_None_iff)
  then show ?case using Cons.IH by simp
qed

lemma keys_fold_addArea:
  "\<forall>(k, a) \<in> set m. AreaID a = k \<Longrightarrow>
   \<forall>(k, a) \<in> set (fold (\<lambda>n. addArea (normalizeAreaID lw n) n) ns m). AreaID a = k"
proof (induction ns arbitrary: m)
  case Nil
  then show ?case by simp
next
  case (Cons n ns)
  have "\<forall>(k, a) \<in> set (addArea (normalizeAreaID lw n) n m). AreaID a = k"
    using Cons.prems by (auto simp: addArea_def)
  then show ?case using Cons.IH by simp
qed

lemma visitsAll_distinct:
  assumes "visitsAll rt" and "distinct (map fst m)"
  shows "distinct (map fst (rangeAreas rt n m))"
proof -
  have s: "set (rangeAreas rt n m) = set m" and l: "length (rangeAreas rt n m) = length m"
    using assms(1) by (simp_all add: visitsAll_def)
  have "card (set (map fst (rangeAreas rt n m))) = card (set (map fst m))"
    by (simp add: s)
  also have "\<dots> = length (map fst m)"
    using assms(2) by (rule distinct_card)
  also have "\<dots> = length (map fst (rangeAreas rt n m))"
    by (simp add: l)
  finally show ?thesis
    by (rule card_distinct)
qed

lemma visitsAll_Nil:
  assumes "visitsAll rt"
  shows "rangeAreas rt n [] = []"
proof -
  have "length (rangeAreas rt n []) = length ([] :: (string \<times> HAArea) list)"
    using assms unfolding visitsAll_def by blast
  then show ?thesis by simp
qed

lemma visitsAll_single:
  assumes "visitsAll rt"
  shows "rangeAreas rt n [x] = [x]"
proof -
  have s: "set (rangeAreas rt n [x]) = {x}" and l: "length (rangeAreas rt n [x]) = 1"
    using assms by (simp_all add: visitsAll_def)
  obtain y where y: "rangeAreas rt n [x] = [y]"
    using l by (cases "rangeAreas rt n [x]") auto
  show ?thesis
    using s unfolding y by simp
qed

lemma lowersASCII_words:
  assumes "lowersASCII lw"
  shows "lw ''Room'' = ''room''" and "lw ''Living Room'' = ''living room''"
    and "lw ''Switch'' = ''switch''" and "lw ''Sonoff'' = ''sonoff''"
proof -
  have a: "isASCII ''Room''" "isASCII ''Living Room''" "isASCII ''Switch''" "isASCII ''Sonoff''"
    by (simp_all add: isASCII_def)
  have l: "asciiLower ''Room'' = ''room''" "asciiLower ''Living Room'' = ''living room''"
      "asciiLower ''Switch'' = ''switch''" "asciiLower ''Sonoff'' = ''sonoff''"
    by code_simp+
  show "lw ''Room'' = ''room''" and "lw ''Living Room'' = ''living room''"
    and "lw ''Switch'' = ''switch''" and "lw ''Sonoff'' = ''sonoff''"
    using assms a l by (simp_all add: lowersASCII_def)
qed

lemma lamp1_parts: "split ''Living Room Lamp 1'' = [''Living'', ''Room'', ''Lamp'', ''1'']"
  by code_simp

lemma sonoff_parts: "split ''Sonoff Switch 1'' = [''Sonoff'', ''Switch'', ''1'']"
  by code_simp

lemma living_room_kept: "\<not> isDeviceName (\<lambda>s. s) ''living room''"
  by code_simp

lemma sonoff_rejected: "isDeviceName (\<lambda>s. s) ''sonoff''"
  by code_simp

lemma lowersASCII_tests:
  assumes "lowersASCII lw"
  shows "isCommonAreaWord lw ''Room''" and "\<not> isCommonAreaWord lw ''Switch''"
    and "\<not> isDeviceName lw ''Living Room''" and "isDeviceName lw ''Sonoff''"
proof -
  note w = lowersASCII_words [OF assms]
  show "isCommonAreaWord lw ''Room''" and "\<not> isCommonAreaWord lw ''Switch''"
    by (simp_all add: isCommonAreaWord_def w commonAreaWords_def)
  have "isDeviceName lw ''Living Room'' = isDeviceName (\<lambda>s. s) ''living room''"
    by (simp only: isDeviceName_def w)
  then show "\<not> isDeviceName lw ''Living Room''"
    using living_room_kept by blast
  have "isDeviceName lw ''Sonoff'' = isDeviceName (\<lambda>s. s) ''sonoff''"
    by (simp only: isDeviceName_def w)
  then show "isDeviceName lw ''Sonoff''"
    using sonoff_rejected by blast
qed

lemma lamp1_candidates:
  assumes "lowersASCII lw"
  shows "areaCandidates lw (mkState ''light.lamp1'' [(''friendly_name'', JString ''Living Room Lamp 1'')])
     = [''Living Room'']"
  by (simp add: areaCandidates_def explicitArea_def nameArea_def mkState_def hasPrefix_def
        lamp1_parts lowersASCII_tests [OF assms])

lemma sonoff_candidates:
  assumes "lowersASCII lw"
  shows "areaCandidates lw (mkState ''switch.s1'' [(''friendly_name'', JString ''Sonoff Switch 1'')])
     = []"
  by (simp add: areaCandidates_def explicitArea_def nameArea_def mkState_def hasPrefix_def
        sonoff_parts lowersASCII_tests [OF assms])

text \<open>
  The rules as claimed fail on five states, here with a runtime that lowers these names as
  \<open>strings.ToLower\<close> does. A state with an \<open>area\<close> attribute and a display name yields an
  area from each, not from the attribute alone. A display name of a single part yields no
  area, not its first token. A display name is split at every single space, so two spaces
  in a row make an empty second part and the two-word rule does not apply. An \<open>area\<close>
  attribute that is the empty string yields no area. The length of a candidate is counted
  in bytes: the first part of the UTF-8 name \<open>B\<close>, \<open>0xC3 0xA4\<close>, \<open>r Lamp\<close> has three
  characters and four bytes, and is accepted.
\<close>

theorem extraction_rules_differ:
  "set (areasFromStates sampleRuntime 0 [mkState ''light.a''
      [(''area'', JString ''Attic''), (''friendly_name'', JString ''Garage Door Opener'')]]) =
     {\<lparr>AreaID = ''attic'', Name = ''Attic'', Picture = [], Aliases = []\<rparr>,
      \<lparr>AreaID = ''garage'', Name = ''Garage'', Picture = [], Aliases = []\<rparr>} \<and>
   areasFromStates sampleRuntime 0 [mkState ''light.b'' [(''friendly_name'', JString ''Kitchen'')]] = [] \<and>
   areasFromStates sampleRuntime 0
      [mkState ''light.c'' [(''friendly_name'', JString ''Dining  Room Lamp'')]] =
     [\<lparr>AreaID = ''dining'', Name = ''Dining'', Picture = [], Aliases = []\<rparr>] \<and>
   areasFromStates sampleRuntime 0 [mkState ''light.d'' [(''area'', JString [])]] = [] \<and>
   areasFromStates sampleRuntime 0 [mkState ''light.e''
      [(''friendly_name'', JString (CHR ''B'' # CHR 0xC3 # CHR 0xA4 # ''r Lamp''))]] =
     [\<lparr>AreaID = [CHR ''b'', CHR 0xC3, CHR 0xA4, CHR ''r''],
       Name = [CHR ''B'', CHR 0xC3, CHR 0xA4, CHR ''r''], Picture = [], Aliases = []\<rparr>]"
  by code_simp

text \<open>
  C6 (amended). Let ranging over the map of extracted areas visit every entry once, in
  whatever order. The extraction looks at the states whose id starts with \<open>light.\<close> or
  \<open>switch.\<close>. Each proposes, in this order: its \<open>area\<close> attribute, when that is a non-empty
  string; and, whether or not it has an \<open>area\<close> attribute, the candidate of its display
  name, when that is a string of at least two parts (split at each single space): the
  first two parts joined by a space when there are at least three parts and the lowered
  second part is in the area-noun vocabulary, else the first part alone; the candidate is
  accepted only if it is longer than 3 bytes and, lowered, contains no word of the
  device-name vocabulary. Every proposed name is normalized (lowered by \<open>strings.ToLower\<close>,
  spaces to underscores) into an area id; the extracted areas have distinct ids, and the
  area of an id is named by the first proposed name with that id. When \<open>strings.ToLower\<close>
  lowers ASCII strings bytewise, \<open>Living Room Lamp 1\<close> yields the area id \<open>living_room\<close>,
  and \<open>Sonoff Switch 1\<close> yields no area.
\<close>

theorem heuristic_area_extraction:
  assumes v: "visitsAll rt"
  shows "distinct (map AreaID (areasFromStates rt n states)) \<and>
   (a \<in> set (areasFromStates rt n states) \<longleftrightarrow>
      (\<exists>nm. find (\<lambda>n'. normalizeAreaID (ToLower rt) n' = AreaID a)
               (concat (map (areaCandidates (ToLower rt)) states)) = Some nm \<and>
            a = \<lparr>AreaID = normalizeAreaID (ToLower rt) nm, Name = nm, Picture = [], Aliases = []\<rparr>)) \<and>
   (lowersASCII (ToLower rt) \<longrightarrow>
      areasFromStates rt n
        [mkState ''light.lamp1'' [(''friendly_name'', JString ''Living Room Lamp 1'')]] =
        [\<lparr>AreaID = ''living_room'', Name = ''Living Room'', Picture = [], Aliases = []\<rparr>] \<and>
      areasFromStates rt n
        [mkState ''switch.s1'' [(''friendly_name'', JString ''Sonoff Switch 1'')]] = [])"
proof (intro conjI impI)
  let ?lw = "ToLower rt"
  let ?cs = "concat (map (areaCandidates ?lw) states)"
  let ?m = "fold (\<lambda>nm. addArea (normalizeAreaID ?lw nm) nm) ?cs []"
  let ?r = "rangeAreas rt n ?m"
  have af: "areasFromStates rt n states = map snd ?r"
    by (simp add: areasFromStates_def fold_extractAreasStep)
  have s: "set ?r = set ?m"
    using v by (simp add: visitsAll_def)
  have d: "distinct (map fst ?m)"
    by (rule distinct_fold_addArea) simp
  have dr: "distinct (map fst ?r)"
    using v d by (rule visitsAll_distinct)
  have k: "\<forall>(k, a) \<in> set ?m. AreaID a = k"
    by (rule keys_fold_addArea) simp
  have fs: "map (AreaID \<circ> snd) ?r = map fst ?r"
    using k s by auto
  show "distinct (map AreaID (areasFromStates rt n states))"
    using dr by (simp add: af fs)
  have "a \<in> set (areasFromStates rt n states) \<longleftrightarrow> a \<in> snd ` set ?m"
    by (simp add: af s)
  also have "\<dots> \<longleftrightarrow> (AreaID a, a) \<in> set ?m"
    using k by force
  also have "\<dots> \<longleftrightarrow> map_of ?m (AreaID a) = Some a"
    using d by simp
  also have "\<dots> \<longleftrightarrow>
      map_option (namedArea ?lw) (find (\<lambda>n'. normalizeAreaID ?lw n' = AreaID a) ?cs) = Some a"
    by (simp add: map_of_fold_addArea)
  also have "\<dots> \<longleftrightarrow> (\<exists>nm. find (\<lambda>n'. normalizeAreaID ?lw n' = AreaID a) ?cs = Some nm \<and>
           a = \<lparr>AreaID = normalizeAreaID ?lw nm, Name = nm, Picture = [], Aliases = []\<rparr>)"
    by (auto simp: namedArea_def)
  finally show "a \<in> set (areasFromStates rt n states) \<longleftrightarrow>
      (\<exists>nm. find (\<lambda>n'. normalizeAreaID ?lw n' = AreaID a) ?cs = Some nm \<and>
           a = \<lparr>AreaID = normalizeAreaID ?lw nm, Name = nm, Picture = [], Aliases = []\<rparr>)" .
next
  assume l: "lowersASCII (ToLower rt)"
  show "areasFromStates rt n
        [mkState ''light.lamp1'' [(''friendly_name'', JString ''Living Room Lamp 1'')]] =
        [\<lparr>AreaID = ''living_room'', Name = ''Living Room'', Picture = [], Aliases = []\<rparr>]"
    by (simp add: areasFromStates_def extractAreasStep_candidates lamp1_candidates [OF l]
          addArea_def normalizeAreaID_def lowersASCII_words [OF l] replaceSpaces_def
          visitsAll_single [OF v])
next
  assume l: "lowersASCII (ToLower rt)"
  show "areasFromStates rt n
        [mkState ''switch.s1'' [(''friendly_name'', JString ''Sonoff Switch 1'')]] = []"
    by (simp add: areasFromStates_def extractAreasStep_candidates sonoff_candidates [OF l]
          visitsAll_Nil [OF v])
qed

lemma sampleStates_find:
  "find (\<lambda>n'. normalizeAreaID (ToLower sampleRuntime) n' = ''living_room'')
     (concat (map (areaCandidates (ToLower sampleRuntime))
        [mkState ''switch.s1'' [(''friendly_name'', JString ''Sonoff Switch 1'')],
         mkState ''light.lamp1'' [(''friendly_name'', JString ''Living Room Lamp 1'')],
         mkState ''light.lamp2'' [(''area'', JString ''living room'')]])) = Some ''Living Room''"
  by code_simp

lemma living_room_id: "normalizeAreaID (ToLower sampleRuntime) ''Living Room'' = ''living_room''"
  by code_simp

theorem heuristic_area_extraction_witness:
  "visitsAll sampleRuntime \<and> lowersASCII (ToLower sampleRuntime) \<and>
   \<lparr>AreaID = ''living_room'', Name = ''Living Room'', Picture = [], Aliases = []\<rparr>
     \<in> set (areasFromStates sampleRuntime 0
        [mkState ''switch.s1'' [(''friendly_name'', JString ''Sonoff Switch 1'')],
         mkState ''light.lamp1'' [(''friendly_name'', JString ''Living Room Lamp 1'')],
         mkState ''light.lamp2'' [(''area'', JString ''living room'')]]) \<and>
   areasFromStates sampleRuntime 0
     [mkState ''light.lamp1'' [(''friendly_name'', JString ''Living Room Lamp 1'')]] =
     [\<lparr>AreaID = ''living_room'', Name = ''Living Room'', Picture = [], Aliases = []\<rparr>] \<and>
   areasFromStates sampleRuntime 0
     [mkState ''switch.s1'' [(''friendly_name'', JString ''Sonoff Switch 1'')]] = []"
proof -
  note t = heuristic_area_extraction [OF sampleRuntime_visitsAll, where n = 0]
  note t1 = t [of
      "[mkState ''switch.s1'' [(''friendly_name'', JString ''Sonoff Switch 1'')],
        mkState ''light.lamp1'' [(''friendly_name'', JString ''Living Room Lamp 1'')],
        mkState ''light.lamp2'' [(''area'', JString ''living room'')]]"
      "\<lparr>AreaID = ''living_room'', Name = ''Living Room'', Picture = [], Aliases = []\<rparr>",
      THEN conjunct2, THEN conjunct1]
  note t2 = t [of "[]" undefined, THEN conjunct2, THEN conjunct2, rule_format,
      OF sampleRuntime_lowersASCII]
  have m: "\<lparr>AreaID = ''living_room'', Name = ''Living Room'', Picture = [], Aliases = []\<rparr>
     \<in> set (areasFromStates sampleRuntime 0
        [mkState ''switch.s1'' [(''friendly_name'', JString ''Sonoff Switch 1'')],
         mkState ''light.lamp1'' [(''friendly_name'', JString ''Living Room Lamp 1'')],
         mkState ''light.lamp2'' [(''area'', JString ''living room'')]])"
    unfolding t1 using sampleStates_find living_room_id by simp
  show ?thesis
    using sampleRuntime_visitsAll sampleRuntime_lowersASCII m t2 by simp
qed

end
